theory Spec2Isabelle
  imports Main
begin

section \<open>Strings as JavaScript sees them\<close>

text \<open>
  A JavaScript string is modelled as a \<open>string\<close>, one \<open>char\<close> per code unit, so that
  \<open>.length\<close> is \<open>length\<close>. A string is truthy when it is not empty; an optional field
  (\<open>content?\<close>, \<open>language?\<close>, a nullable \<open>selectedText\<close>) is a \<open>string option\<close> and is
  truthy when it is present and not empty.
\<close>

definition truthy :: "string option \<Rightarrow> bool" where
  "truthy s = (case s of None \<Rightarrow> False | Some t \<Rightarrow> t \<noteq> [])"

text \<open>\<open>x || ''\<close> on an optional string.\<close>

definition or_empty :: "string option \<Rightarrow> string" where
  "or_empty s = (case s of None \<Rightarrow> [] | Some t \<Rightarrow> t)"

text \<open>An optional string inside a template literal: \<open>undefined\<close> prints as the word.\<close>

definition interpolate :: "string option \<Rightarrow> string" where
  "interpolate s = (case s of None \<Rightarrow> ''undefined'' | Some t \<Rightarrow> t)"

text \<open>
  \<open>s.substring(0, n)\<close>: a negative \<open>n\<close> counts as 0 and an \<open>n\<close> beyond the end as the
  length, which is what \<open>take (nat n)\<close> computes.
\<close>

definition substring0 :: "string \<Rightarrow> int \<Rightarrow> string" where
  "substring0 s n = take (nat n) s"

text \<open>
  \<open>String.prototype.trim\<close> removes white space at both ends. Of the code units it
  removes, those below 256 are tab, line feed, vertical tab, form feed, carriage
  return, space and the no-break space.
\<close>

definition is_ws :: "char \<Rightarrow> bool" where
  "is_ws c = (of_char c \<in> {9, 10, 11, 12, 13, 32, 160 :: nat})"

definition trim :: "string \<Rightarrow> string" where
  "trim s = rev (dropWhile is_ws (rev (dropWhile is_ws s)))"

section \<open>WorkspaceService.buildContextForPrompt\<close>

record FileInfo =
  path :: string
  relativePath :: string
  name :: string
  content :: "string option"
  language :: "string option"

record WorkspaceContext =
  workspaceName :: string
  workspacePath :: string
  openFiles :: "FileInfo list"
  activeFile :: "FileInfo option"
  selectedText :: "string option"
  recentFiles :: "FileInfo list"

text \<open>
  The workspace as the service reads it: what \<open>getContext()\<close> returns (\<open>None\<close> when no
  folder is open) and what \<open>readFile\<close> returns for a path (\<open>None\<close> when it fails).
\<close>

record workspace =
  getContext :: "WorkspaceContext option"
  readFile :: "string \<Rightarrow> FileInfo option"

definition readFiles :: "workspace \<Rightarrow> string list \<Rightarrow> FileInfo list" where
  "readFiles w filePaths = List.map_filter (readFile w) filePaths"

text \<open>The truncation both the active file and the attached files go through.\<close>

definition truncatedContent :: "string \<Rightarrow> int \<Rightarrow> string" where
  "truncatedContent c remainingChars =
     (if int (length c) > remainingChars - 200
      then substring0 c (remainingChars - 200) @ ''\<newline>... (truncated)''
      else c)"

definition workspaceHeader :: "WorkspaceContext \<Rightarrow> string" where
  "workspaceHeader ctx = ''## Workspace: '' @ workspaceName ctx @ ''\<newline>\<newline>''"

definition selectedSection :: "string \<Rightarrow> string" where
  "selectedSection sel =
     ''### Selected Text:\<newline>```\<newline>'' @ sel @ ''\<newline>```\<newline>\<newline>''"

definition activeSection :: "FileInfo \<Rightarrow> string \<Rightarrow> string" where
  "activeSection f body =
     ''### Currently Active File: '' @ relativePath f @ ''\<newline>Language: ''
       @ interpolate (language f) @ ''\<newline>```'' @ or_empty (language f) @ ''\<newline>''
       @ body @ ''\<newline>```\<newline>\<newline>''"

definition fileSection :: "FileInfo \<Rightarrow> string \<Rightarrow> string" where
  "fileSection f body =
     ''### File: '' @ relativePath f @ ''\<newline>```'' @ or_empty (language f) @ ''\<newline>''
       @ body @ ''\<newline>```\<newline>\<newline>''"

text \<open>
  The first block of \<open>buildContextForPrompt\<close>: header, selection, active file. The
  state is the pair \<open>(contextStr, remainingChars)\<close>.
\<close>

definition addSelection :: "WorkspaceContext \<Rightarrow> string \<times> int \<Rightarrow> string \<times> int" where
  "addSelection ctx st =
     (case st of (contextStr, remainingChars) \<Rightarrow>
        if truthy (selectedText ctx) \<and> remainingChars > 0 then
          (let sec = selectedSection (the (selectedText ctx)) in
           if int (length sec) \<le> remainingChars
           then (contextStr @ sec, remainingChars - int (length sec))
           else (contextStr, remainingChars))
        else (contextStr, remainingChars))"

definition addActiveFile :: "WorkspaceContext \<Rightarrow> string \<times> int \<Rightarrow> string \<times> int" where
  "addActiveFile ctx st =
     (case st of (contextStr, remainingChars) \<Rightarrow>
        (case activeFile ctx of
           None \<Rightarrow> (contextStr, remainingChars)
         | Some f \<Rightarrow>
             if truthy (content f) \<and> remainingChars > 0 then
               (let sec = activeSection f (truncatedContent (the (content f)) remainingChars)
                in (contextStr @ sec, remainingChars - int (length sec)))
             else (contextStr, remainingChars)))"

definition addContext :: "WorkspaceContext option \<Rightarrow> int \<Rightarrow> string \<times> int" where
  "addContext c maxChars =
     (case c of
        None \<Rightarrow> ([], maxChars)
      | Some ctx \<Rightarrow>
          addActiveFile ctx (addSelection ctx
            (workspaceHeader ctx, maxChars - int (length (workspaceHeader ctx)))))"

text \<open>The loop over the files read, with its \<open>break\<close>.\<close>

fun addFiles :: "FileInfo list \<Rightarrow> string \<times> int \<Rightarrow> string \<times> int" where
  "addFiles [] st = st"
| "addFiles (f # fs) (contextStr, remainingChars) =
     (if truthy (content f) \<and> remainingChars > 500 then
        (let sec = fileSection f (truncatedContent (the (content f)) remainingChars);
             r = remainingChars - int (length sec)
         in if r \<le> 0 then (contextStr @ sec, r) else addFiles fs (contextStr @ sec, r))
      else addFiles fs (contextStr, remainingChars))"

definition buildContextForPrompt :: "workspace \<Rightarrow> string list \<Rightarrow> int \<Rightarrow> string" where
  "buildContextForPrompt w contextFiles maxChars =
     (let st = addContext (getContext w) maxChars in
      if length contextFiles > 0 \<and> snd st > 0
      then fst (addFiles (readFiles w contextFiles) st)
      else fst st)"

text \<open>The default of the \<open>maxChars\<close> parameter.\<close>

definition defaultMaxChars :: int where
  "defaultMaxChars = 50000"

section \<open>GeminiLiveClient\<close>

text \<open>
  \<open>ws\<close> is the \<open>WebSocket | null\<close> field with the socket's \<open>readyState\<close>. Audio buffers are
  lists of bytes; the base64 text they are sent as is not modelled. Everything the client
  does to the socket is appended to \<open>socket\<close>, and every call of a callback the owner
  passed to the constructor is appended to \<open>calls\<close>.
\<close>

datatype readyState = CONNECTING | OPEN | CLOSING | CLOSED

datatype payload =
    Setup string
  | RealtimeInput "nat list list"
  | ClientContent string bool

datatype ws_action = Send payload | Close

datatype callback =
    OnTranscription string bool
  | OnModelResponse string bool
  | OnError string
  | OnConnected
  | OnDisconnected

datatype error =
    NotConnected
  | AudioEndFailed
  | TurnCompleteFailed
  | ResponseTimeout
  | PlaybackFailed string

datatype outcome = Resolve string | Reject error

text \<open>
  The value of \<open>callbacks.onModelResponse\<close>: the function the owner passed, or the arrow
  function that \<open>requestModelResponse\<close> number \<open>i\<close> put there, which closes over the
  function it replaced.
\<close>

datatype handler = Original | Wrapper nat handler

text \<open>
  The variables one call of \<open>requestModelResponse\<close> closes over, and the calls of
  \<open>resolve\<close> and \<open>reject\<close> it has made so far, in order.
\<close>

record request =
  originalCallback :: handler
  resolved :: bool
  settled :: "outcome list"

record client =
  ws :: "readyState option"
  currentTranscription :: string
  currentModelResponse :: string
  workspaceContext :: string
  onModelResponse :: handler
  requests :: "nat \<Rightarrow> request"
  nextRequest :: nat
  socket :: "ws_action list"
  calls :: "callback list"
  timeouts :: "(nat \<times> nat) list"

text \<open>A promise takes the first \<open>resolve\<close> or \<open>reject\<close> and ignores the later ones.\<close>

definition promise :: "client \<Rightarrow> nat \<Rightarrow> outcome option" where
  "promise c i = (case settled (requests c i) of [] \<Rightarrow> None | x # _ \<Rightarrow> Some x)"

definition settle :: "nat \<Rightarrow> outcome \<Rightarrow> client \<Rightarrow> client" where
  "settle i x c =
     c\<lparr>requests := (requests c)(i := (requests c i)\<lparr>settled := settled (requests c i) @ [x]\<rparr>)\<rparr>"

definition setResolved :: "nat \<Rightarrow> client \<Rightarrow> client" where
  "setResolved i c = c\<lparr>requests := (requests c)(i := (requests c i)\<lparr>resolved := True\<rparr>)\<rparr>"

text \<open>The constructor: empty buffers, no socket, the owner's callbacks.\<close>

definition newClient :: client where
  "newClient = \<lparr>ws = None, currentTranscription = [], currentModelResponse = [],
     workspaceContext = [], onModelResponse = Original,
     requests = (\<lambda>_. \<lparr>originalCallback = Original, resolved = False, settled = []\<rparr>),
     nextRequest = 0, socket = [], calls = [], timeouts = []\<rparr>"

definition setWorkspaceContext :: "string \<Rightarrow> client \<Rightarrow> client" where
  "setWorkspaceContext ctx c = c\<lparr>workspaceContext := ctx\<rparr>"

text \<open>
  \<open>connect\<close>: the API key is never empty (the constructor falls back to a non-empty
  constant), so the socket is always created; it starts in \<open>CONNECTING\<close>.
\<close>

definition connect :: "client \<Rightarrow> client" where
  "connect c = c\<lparr>ws := Some CONNECTING\<rparr>"

definition isConnected :: "client \<Rightarrow> bool" where
  "isConnected c = (ws c = Some OPEN)"

definition resetTranscription :: "client \<Rightarrow> client" where
  "resetTranscription c = c\<lparr>currentTranscription := []\<rparr>"

definition resetModelResponse :: "client \<Rightarrow> client" where
  "resetModelResponse c = c\<lparr>currentModelResponse := []\<rparr>"

definition getTranscription :: "client \<Rightarrow> string" where
  "getTranscription c = trim (currentTranscription c)"

text \<open>Calling whatever function is in \<open>callbacks.onModelResponse\<close>.\<close>

fun invoke :: "handler \<Rightarrow> string \<Rightarrow> bool \<Rightarrow> client \<Rightarrow> client" where
  "invoke Original text isFinal c = c\<lparr>calls := calls c @ [OnModelResponse text isFinal]\<rparr>"
| "invoke (Wrapper i orig) text isFinal c =
     (let c1 = invoke orig text isFinal c in
      if isFinal \<and> \<not> resolved (requests c1 i)
      then settle i (Resolve text) ((setResolved i c1)\<lparr>onModelResponse := orig\<rparr>)
      else c1)"

definition fireModelResponse :: "string \<Rightarrow> bool \<Rightarrow> client \<Rightarrow> client" where
  "fireModelResponse text isFinal c = invoke (onModelResponse c) text isFinal c"

text \<open>
  A parsed server message, as far as \<open>handleResponse\<close> looks at it. \<open>inputTranscription\<close>
  is a string or an object with an optional \<open>text\<close>; \<open>modelTurnParts\<close> is the array
  \<open>serverContent.modelTurn.parts\<close>, each part with an optional \<open>text\<close>.
\<close>

datatype transcription = TrString string | TrObject "string option"

text \<open>
  \<open>response.error\<close>, when there is one: its optional \<open>message\<close> and the text
  \<open>JSON.stringify\<close> gives for it, which is what is reported when the message is
  missing or empty.
\<close>

record errorObject =
  message :: "string option"
  stringified :: string

record response =
  error :: "errorObject option"
  setupComplete :: bool
  inputTranscription :: "transcription option"
  modelTurnParts :: "string option list option"
  turnComplete :: bool
  interrupted :: bool

definition transcriptionPresent :: "transcription option \<Rightarrow> bool" where
  "transcriptionPresent t =
     (case t of None \<Rightarrow> False | Some (TrString s) \<Rightarrow> s \<noteq> [] | Some (TrObject _) \<Rightarrow> True)"

definition transcriptionText :: "transcription \<Rightarrow> string option" where
  "transcriptionText t = (case t of TrString s \<Rightarrow> Some s | TrObject x \<Rightarrow> x)"

fun addParts :: "string option list \<Rightarrow> client \<Rightarrow> client" where
  "addParts [] c = c"
| "addParts (p # ps) c =
     (if truthy p
      then (let c1 = c\<lparr>currentModelResponse := currentModelResponse c @ the p\<rparr>
            in addParts ps (fireModelResponse (currentModelResponse c1) False c1))
      else addParts ps c)"

definition handleResponse :: "response \<Rightarrow> client \<Rightarrow> client" where
  "handleResponse r c =
     (case error r of
        Some e \<Rightarrow>
          c\<lparr>calls := calls c @
              [OnError (''Gemini error: '' @
                 (if truthy (message e) then the (message e) else stringified e))]\<rparr>
      | None \<Rightarrow>
          if setupComplete r then c\<lparr>calls := calls c @ [OnConnected]\<rparr>
          else if transcriptionPresent (inputTranscription r) then
            (let text = transcriptionText (the (inputTranscription r)) in
             if truthy text
             then (let c1 = c\<lparr>currentTranscription := currentTranscription c @ the text\<rparr>
                   in c1\<lparr>calls := calls c1 @ [OnTranscription (currentTranscription c1) False]\<rparr>)
             else c)
          else (case modelTurnParts r of
                  Some ps \<Rightarrow> addParts ps c
                | None \<Rightarrow>
                    if turnComplete r
                    then (if currentModelResponse c \<noteq> []
                          then fireModelResponse (currentModelResponse c) True c
                          else fireModelResponse [] True c)
                    else c))"

text \<open>
  The socket's \<open>open\<close> event, which a socket that is connecting can have: the socket
  is open and the setup message goes out, with the workspace context in its system
  instruction when there is one.
\<close>

definition systemInstruction :: "client \<Rightarrow> string" where
  "systemInstruction c =
     ''You are a helpful coding assistant integrated into VS Code. You help developers write, understand, and debug code. Be concise and practical in your responses. When discussing code, reference specific files and line numbers when relevant.''
     @ (if workspaceContext c \<noteq> []
        then ''\<newline>\<newline>Here is the current workspace context:\<newline>'' @ workspaceContext c
        else [])"

definition onOpen :: "client \<Rightarrow> client" where
  "onOpen c =
     (if ws c = Some CONNECTING
      then c\<lparr>ws := Some OPEN, socket := socket c @ [Send (Setup (systemInstruction c))]\<rparr>
      else c)"

text \<open>The socket's \<open>close\<close> event.\<close>

definition onClose :: "client \<Rightarrow> client" where
  "onClose c = c\<lparr>calls := calls c @ [OnDisconnected], ws := None\<rparr>"

definition sendAudio :: "nat list \<Rightarrow> client \<Rightarrow> client" where
  "sendAudio audioData c =
     (if ws c \<noteq> Some OPEN then c
      else c\<lparr>socket := socket c @ [Send (RealtimeInput [audioData])]\<rparr>)"

definition interrupt :: "client \<Rightarrow> client" where
  "interrupt c =
     (if ws c \<noteq> Some OPEN then c
      else c\<lparr>currentModelResponse := [],
             socket := socket c @ [Send (RealtimeInput [replicate 480 0])],
             currentTranscription := []\<rparr>)"

definition disconnect :: "client \<Rightarrow> client" where
  "disconnect c =
     (let c1 = (case ws c of
                  None \<Rightarrow> c
                | Some _ \<Rightarrow> c\<lparr>socket := socket c @ [Close], ws := None\<rparr>)
      in c1\<lparr>currentTranscription := [], currentModelResponse := []\<rparr>)"

definition fallbackText :: string where
  "fallbackText = ''Hello, please respond to me.''"

definition responseTimeoutMs :: nat where
  "responseTimeoutMs = 30000"

text \<open>
  \<open>requestModelResponse\<close>. Whether each of the two \<open>ws.send\<close> calls throws is the socket's
  answer, given as \<open>sendOk1\<close> and \<open>sendOk2\<close>. The call takes the next request number;
  its promise is \<open>promise c' i\<close> for that number.
\<close>

definition requestModelResponse :: "bool \<Rightarrow> bool \<Rightarrow> client \<Rightarrow> client" where
  "requestModelResponse sendOk1 sendOk2 c =
     (let i = nextRequest c;
          c0 = c\<lparr>nextRequest := Suc i,
                 requests := (requests c)(i :=
                   \<lparr>originalCallback = onModelResponse c, resolved = False, settled = []\<rparr>)\<rparr>
      in if ws c \<noteq> Some OPEN then settle i (Reject NotConnected) c0
         else
           (let c1 = c0\<lparr>currentModelResponse := [],
                        onModelResponse := Wrapper i (onModelResponse c)\<rparr>
            in if \<not> sendOk1 then settle i (Reject AudioEndFailed) c1
               else
                 (let c2 = c1\<lparr>socket := socket c1 @ [Send (RealtimeInput [])]\<rparr>
                  in if \<not> sendOk2 then settle i (Reject TurnCompleteFailed) c2
                     else c2\<lparr>socket := socket c2 @
                                 [Send (ClientContent
                                    (if currentTranscription c2 \<noteq> []
                                     then currentTranscription c2 else fallbackText) True)],
                              timeouts := timeouts c2 @ [(responseTimeoutMs, i)]\<rparr>)))"

text \<open>The function given to \<open>setTimeout\<close> by request \<open>i\<close>, when it runs.\<close>

definition timeoutFired :: "nat \<Rightarrow> client \<Rightarrow> client" where
  "timeoutFired i c =
     (if \<not> resolved (requests c i) then
        (let c1 = (setResolved i c)\<lparr>onModelResponse := originalCallback (requests c i)\<rparr>
         in if currentModelResponse c1 \<noteq> []
            then settle i (Resolve (currentModelResponse c1)) c1
            else settle i (Reject ResponseTimeout) c1)
      else c)"

section \<open>AudioCapture and AudioPlayer\<close>

text \<open>
  A spawned child process is running or has been killed. \<open>recorders\<close> are the \<open>rec\<close>
  processes spawned so far, in order, and \<open>process\<close> is the field of \<open>AudioCapture\<close>:
  undefined at first, then the number of the recorder spawned last.
  \<open>startRecording\<close> spawns a recorder and overwrites the field, whatever it held;
  \<open>stopRecording\<close> kills the recorder the field holds and keeps the handle.
  \<open>AudioPlayer.process\<close> is set back to \<open>null\<close> by \<open>stop()\<close>.
\<close>

datatype child = Running | Killed

record capture =
  process :: "nat option"
  recorders :: "child list"

definition startRecording :: "capture \<Rightarrow> capture" where
  "startRecording a =
     a\<lparr>recorders := recorders a @ [Running], process := Some (length (recorders a))\<rparr>"

definition stopRecording :: "capture \<Rightarrow> capture" where
  "stopRecording a =
     (case process a of
        None \<Rightarrow> a
      | Some k \<Rightarrow> a\<lparr>recorders := (recorders a)[k := Killed]\<rparr>)"

text \<open>A recording stream is open when some recorder is running.\<close>

definition recording :: "capture \<Rightarrow> bool" where
  "recording a = (Running \<in> set (recorders a))"

definition stop :: "child option \<Rightarrow> child option" where
  "stop player = None"


section \<open>SoundCodeViewProvider\<close>

text \<open>
  Messages the provider posts to the webview, and the calls it makes to the speech
  service, the player and the editor's error pop-up.
\<close>

datatype ui_message =
    RecordingStarted
  | RecordingStopped
  | TranscriptionUpdate string bool
  | Thinking
  | ModelResponse string
  | AudioComplete
  | AudioData "nat list"
  | ErrorMessage string
  | FileSearchResults "string list"
  | Interrupted
  | HardStopped

datatype effect =
    TextToSpeech string
  | Play "nat list"
  | ShowErrorMessage string

text \<open>
  The provider's fields. \<open>GeminiLiveClient\<close> objects live in \<open>heap\<close>, and \<open>geminiClient\<close>
  is the reference the provider holds (\<open>None\<close> for \<open>null\<close>), so that a client the provider
  has let go of can still be looked at. \<open>posted\<close> is what went through
  \<open>webview.postMessage\<close>; the handlers below run only for messages of a resolved
  webview, so \<open>webviewView\<close> is set.
\<close>

record provider =
  audioCapture :: capture
  geminiClient :: "nat option"
  heap :: "nat \<Rightarrow> client"
  nextClient :: nat
  elevenLabsApiKey :: string
  audioPlayer :: "child option"
  contextFiles :: "string list"
  posted :: "ui_message list"
  effects :: "effect list"

definition post :: "ui_message \<Rightarrow> provider \<Rightarrow> provider" where
  "post m p = p\<lparr>posted := posted p @ [m]\<rparr>"

definition onClient :: "nat \<Rightarrow> (client \<Rightarrow> client) \<Rightarrow> provider \<Rightarrow> provider" where
  "onClient a f p = p\<lparr>heap := (heap p)(a := f (heap p a))\<rparr>"

text \<open>\<open>this.geminiClient && this.geminiClient.isConnected()\<close>\<close>

definition connected :: "provider \<Rightarrow> bool" where
  "connected p = (case geminiClient p of None \<Rightarrow> False | Some a \<Rightarrow> isConnected (heap p a))"

definition isConfigured :: "provider \<Rightarrow> bool" where
  "isConfigured p = (elevenLabsApiKey p \<noteq> [])"

definition startAudioCapture :: "provider \<Rightarrow> provider" where
  "startAudioCapture p = post RecordingStarted (p\<lparr>audioCapture := startRecording (audioCapture p)\<rparr>)"

text \<open>The provider's own \<open>stopRecording\<close>, the handler of \<open>stopDictation\<close>.\<close>

definition stopDictation :: "provider \<Rightarrow> provider" where
  "stopDictation p = post RecordingStopped (p\<lparr>audioCapture := stopRecording (audioCapture p)\<rparr>)"

definition handleInterrupt :: "provider \<Rightarrow> provider" where
  "handleInterrupt p =
     (let p1 = p\<lparr>audioPlayer := stop (audioPlayer p)\<rparr> in
      case geminiClient p1 of
        None \<Rightarrow> p1
      | Some a \<Rightarrow>
          if isConnected (heap p1 a)
          then startAudioCapture
                 (post Interrupted (onClient a interrupt (onClient a resetTranscription p1)))
          else p1)"

definition handleHardStop :: "provider \<Rightarrow> provider" where
  "handleHardStop p =
     (let p1 = p\<lparr>audioCapture := stopRecording (audioCapture p)\<rparr>;
          p2 = p1\<lparr>audioPlayer := stop (audioPlayer p1)\<rparr>;
          p3 = (case geminiClient p2 of
                  None \<Rightarrow> p2
                | Some a \<Rightarrow> (onClient a disconnect p2)\<lparr>geminiClient := None\<rparr>)
      in post HardStopped p3)"

text \<open>
  The provider's \<open>startRecording\<close>, the handler of \<open>startDictation\<close>, in the workspace
  \<open>w\<close>. A new client is a new cell of the heap.
\<close>

definition startDictation :: "workspace \<Rightarrow> provider \<Rightarrow> provider" where
  "startDictation w p =
     (if \<not> connected p then
        (let a = nextClient p;
             p1 = p\<lparr>heap := (heap p)(a := newClient), nextClient := Suc a,
                     geminiClient := Some a\<rparr>;
             workspaceContext = buildContextForPrompt w (contextFiles p1) defaultMaxChars
         in onClient a connect (onClient a (setWorkspaceContext workspaceContext) p1))
      else startAudioCapture p)"

text \<open>
  How the provider's constructor arguments react to a client's callbacks: the
  transcription goes to the webview, an error goes to the webview and the pop-up,
  \<open>onConnected\<close> starts the capture, the other two only log.
\<close>

fun onCallback :: "callback \<Rightarrow> provider \<Rightarrow> provider" where
  "onCallback (OnTranscription text isFinal) p = post (TranscriptionUpdate text isFinal) p"
| "onCallback (OnModelResponse text isFinal) p = p"
| "onCallback (OnError e) p =
     (post (ErrorMessage e) p)\<lparr>effects := effects p @ [ShowErrorMessage (''soundCode: '' @ e)]\<rparr>"
| "onCallback OnConnected p = startAudioCapture p"
| "onCallback OnDisconnected p = p"

text \<open>
  A message arriving on the socket of the client in cell \<open>a\<close>, whether or not the
  provider still holds that client: the client handles it, and the callbacks it calls
  on the way act on the provider.
\<close>

definition deliver :: "nat \<Rightarrow> response \<Rightarrow> provider \<Rightarrow> provider" where
  "deliver a r p =
     (let c = heap p a; c' = handleResponse r c
      in foldl (\<lambda>q cb. onCallback cb q) (p\<lparr>heap := (heap p)(a := c')\<rparr>)
           (drop (length (calls c)) (calls c')))"

text \<open>
  \<open>handleSendToModel\<close> is an async function; it is given in the three pieces between
  its awaits. The first runs up to the 100 ms pause and says whether the function goes
  on. The second runs from the pause to the await of \<open>requestModelResponse\<close>; if the
  client is gone by then, \<open>getTranscription\<close> throws outside the \<open>try\<close> and nothing more
  happens. The third runs once the promise has settled, with the answers of the speech
  service (\<open>None\<close> for \<open>null\<close>) and of the player (\<open>None\<close> when ffplay exits with code 0,
  the message of the error \<open>play\<close> rejects with otherwise). An error is shown as
  \<open>`${error}`\<close> shows it, the word \<open>Error\<close>, a colon and the message.
\<close>

definition sendEnter :: "provider \<Rightarrow> provider \<times> bool" where
  "sendEnter p =
     (if \<not> connected p then (post AudioComplete p, False)
      else (p\<lparr>audioCapture := stopRecording (audioCapture p)\<rparr>, True))"

definition sendRequest :: "bool \<Rightarrow> bool \<Rightarrow> provider \<Rightarrow> provider" where
  "sendRequest sendOk1 sendOk2 p =
     (case geminiClient p of
        None \<Rightarrow> p
      | Some a \<Rightarrow> onClient a (requestModelResponse sendOk1 sendOk2) (post Thinking p))"

definition resetCurrent :: "provider \<Rightarrow> provider" where
  "resetCurrent p =
     (case geminiClient p of None \<Rightarrow> p | Some a \<Rightarrow> onClient a resetTranscription p)"

definition sendFailed :: "string \<Rightarrow> provider \<Rightarrow> provider" where
  "sendFailed e p = post (ErrorMessage (''Failed to get response: '' @ e)) (resetCurrent p)"

fun errorText :: "error \<Rightarrow> string" where
  "errorText NotConnected = ''Error: WebSocket not connected''"
| "errorText AudioEndFailed = ''Error: Failed to send audio end message''"
| "errorText TurnCompleteFailed = ''Error: Failed to send turn complete message''"
| "errorText ResponseTimeout = ''Error: Model response timeout - no response received''"
| "errorText (PlaybackFailed m) = ''Error: '' @ m"

definition sendResume ::
  "outcome \<Rightarrow> nat list option \<Rightarrow> string option \<Rightarrow> provider \<Rightarrow> provider" where
  "sendResume out tts played p =
     (case out of
        Reject e \<Rightarrow> sendFailed (errorText e) p
      | Resolve responseText \<Rightarrow>
          if responseText = [] then p
          else
            (let p1 = post (ModelResponse responseText) p in
             if isConfigured p1 then
               (let p2 = p1\<lparr>effects := effects p1 @ [TextToSpeech responseText]\<rparr> in
                case tts of
                  None \<Rightarrow> post AudioComplete (resetCurrent p2)
                | Some audioBuffer \<Rightarrow>
                    (let p3 = p2\<lparr>effects := effects p2 @ [Play audioBuffer]\<rparr> in
                     case played of
                       None \<Rightarrow> post AudioComplete (resetCurrent (p3\<lparr>audioPlayer := None\<rparr>))
                     | Some m \<Rightarrow>
                         sendFailed (errorText (PlaybackFailed m))
                           (p3\<lparr>audioPlayer := None\<rparr>)))
             else post AudioComplete (resetCurrent p1)))"

section \<open>The webview script\<close>

text \<open>
  The script's variables, the text of the status line and of the voice box, the class
  lists of the status pill and of the four buttons, the chat history, the messages sent
  with \<open>vscode.postMessage\<close> and the pending \<open>setTimeout\<close> callbacks with the time each
  is due. The script's \<open>currentTranscription\<close> is \<open>transcription\<close> here, the name being
  taken by the client's field. Icons, button labels, scrolling and the waveform are left
  out. \<open>Date.now()\<close> is the argument \<open>now\<close> of each handler, in milliseconds.
\<close>

datatype ext_message =
    StartDictation
  | StopDictation
  | SendToModel string
  | AddContextFile string
  | RemoveContextFile string
  | SearchFiles string
  | Interrupt
  | HardStop

datatype timer = RetrySend | ShowListening

record webview =
  isRecording :: bool
  isDictationActive :: bool
  transcription :: string
  lastTranscriptionUpdate :: int
  isSending :: bool
  isModelResponding :: bool
  messageStatus :: string
  voiceText :: string
  statusPill :: "string set"
  startBtn :: "string set"
  sendBtn :: "string set"
  interruptBtn :: "string set"
  stopBtn :: "string set"
  chat :: "(string \<times> string) list"
  outbox :: "ext_message list"
  timers :: "(int \<times> timer) list"

definition sendDebounceMs :: int where
  "sendDebounceMs = 300"

text \<open>The page as loaded.\<close>

definition initialWebview :: webview where
  "initialWebview =
     \<lparr>isRecording = False, isDictationActive = False, transcription = [],
      lastTranscriptionUpdate = 0, isSending = False, isModelResponding = False,
      messageStatus = ''Ready'', voiceText = [], statusPill = {''status-pill'', ''ready''},
      startBtn = {''btn-dictate''}, sendBtn = {''btn-send'', ''hidden''},
      interruptBtn = {''btn-interrupt'', ''hidden''}, stopBtn = {''btn-stop'', ''hidden''},
      chat = [], outbox = [], timers = []\<rparr>"

definition postMessage :: "ext_message \<Rightarrow> webview \<Rightarrow> webview" where
  "postMessage m s = s\<lparr>outbox := outbox s @ [m]\<rparr>"

definition setTimeout :: "int \<Rightarrow> timer \<Rightarrow> int \<Rightarrow> webview \<Rightarrow> webview" where
  "setTimeout now f delay s = s\<lparr>timers := timers s @ [(now + delay, f)]\<rparr>"

text \<open>The click handler of the start button.\<close>

definition startClick :: "webview \<Rightarrow> webview" where
  "startClick s = (if \<not> isRecording s then postMessage StartDictation s
                   else postMessage StopDictation s)"

text \<open>The click handler of the send button.\<close>

definition sendClick :: "int \<Rightarrow> webview \<Rightarrow> webview" where
  "sendClick now s =
     (if isSending s then s
      else if trim (transcription s) = [] then s
      else
        (let timeSinceLastUpdate = now - lastTranscriptionUpdate s in
         if timeSinceLastUpdate < sendDebounceMs then
           setTimeout now RetrySend (sendDebounceMs - timeSinceLastUpdate + 50)
             (s\<lparr>messageStatus := ''Finishing...''\<rparr>)
         else
           (let s1 = s\<lparr>isSending := True\<rparr>;
                s2 = (if isRecording s1
                      then (postMessage StopDictation s1)\<lparr>isRecording := False\<rparr> else s1);
                userMessage = trim (transcription s2);
                s3 = postMessage (SendToModel userMessage) s2;
                s4 = s3\<lparr>chat := chat s3 @ [(userMessage, ''user'')]\<rparr>
            in s4\<lparr>transcription := [], voiceText := [],
                   messageStatus := ''Thinking...'',
                   statusPill := insert ''thinking''
                     (statusPill s4 - {''paused'', ''ready'', ''listening'', ''speaking''}),
                   isModelResponding := True,
                   isDictationActive := False,
                   startBtn := insert ''hidden'' (startBtn s4 - {''paused'', ''recording''}),
                   sendBtn := insert ''hidden'' (sendBtn s4),
                   interruptBtn := interruptBtn s4 - {''hidden''}\<rparr>)))"

definition interruptClick :: "webview \<Rightarrow> webview" where
  "interruptClick s = postMessage Interrupt s"

definition stopClick :: "webview \<Rightarrow> webview" where
  "stopClick s = postMessage HardStop s"

text \<open>A callback given to \<open>setTimeout\<close>, when it runs at time \<open>now\<close>.\<close>

definition runTimer :: "int \<Rightarrow> timer \<Rightarrow> webview \<Rightarrow> webview" where
  "runTimer now f s =
     (case f of
        RetrySend \<Rightarrow>
          if \<not> isSending s \<and> trim (transcription s) \<noteq> [] then sendClick now s else s
      | ShowListening \<Rightarrow>
          s\<lparr>messageStatus := ''Listening...'',
            statusPill := insert ''listening'' (statusPill s - {''interrupted''})\<rparr>)"

text \<open>The handler of the messages that come from the extension.\<close>

fun onMessage :: "int \<Rightarrow> ui_message \<Rightarrow> webview \<Rightarrow> webview" where
  "onMessage now RecordingStarted s =
     s\<lparr>isRecording := True, isDictationActive := True,
       startBtn := insert ''recording'' (startBtn s) - {''paused''},
       statusPill := insert ''listening''
         (statusPill s - {''paused'', ''ready'', ''thinking'', ''speaking''}),
       messageStatus := ''Listening...'',
       sendBtn := sendBtn s - {''hidden''},
       stopBtn := stopBtn s - {''hidden''}\<rparr>"
| "onMessage now RecordingStopped s =
     s\<lparr>isRecording := False,
       startBtn := insert ''paused'' (startBtn s - {''recording''}),
       statusPill := insert ''paused'' (statusPill s) - {''ready'', ''thinking''},
       messageStatus := ''Paused'',
       sendBtn := (if isDictationActive s then sendBtn s - {''hidden''} else sendBtn s)\<rparr>"
| "onMessage now (TranscriptionUpdate text isFinal) s =
     s\<lparr>transcription := text, voiceText := text, lastTranscriptionUpdate := now\<rparr>"
| "onMessage now Thinking s =
     s\<lparr>messageStatus := ''Thinking...'',
       statusPill := insert ''thinking''
         (statusPill s - {''paused'', ''ready'', ''listening'', ''speaking''})\<rparr>"
| "onMessage now (ModelResponse text) s =
     (let s1 = s\<lparr>isModelResponding := False\<rparr> in
      if text \<noteq> [] then
        s1\<lparr>voiceText := text,
           chat := chat s1 @ [(text, ''assistant'')],
           messageStatus := ''Speaking...'',
           statusPill := insert ''speaking''
             (statusPill s1 - {''paused'', ''thinking'', ''ready'', ''listening''})\<rparr>
      else s1)"
| "onMessage now AudioComplete s =
     s\<lparr>messageStatus := ''Ready'',
       statusPill := insert ''ready''
         (statusPill s - {''paused'', ''thinking'', ''speaking'', ''listening''}),
       isSending := False,
       startBtn := startBtn s - {''hidden''},
       interruptBtn := insert ''hidden'' (interruptBtn s),
       stopBtn := insert ''hidden'' (stopBtn s)\<rparr>"
| "onMessage now (AudioData audio) s = s"
| "onMessage now (ErrorMessage text) s =
     s\<lparr>messageStatus := ''Error'',
       statusPill := statusPill s - {''thinking''},
       isModelResponding := False,
       isSending := False,
       startBtn := startBtn s - {''hidden''},
       interruptBtn := insert ''hidden'' (interruptBtn s)\<rparr>"
| "onMessage now (FileSearchResults files) s = s"
| "onMessage now Interrupted s =
     (let s1 = s\<lparr>isModelResponding := False, isSending := False, isRecording := True,
                  isDictationActive := True, transcription := [], voiceText := [],
                  messageStatus := ''Interrupted'',
                  statusPill := insert ''interrupted''
                    (statusPill s - {''paused'', ''ready'', ''thinking'', ''speaking'',
                                     ''listening''})\<rparr>;
          s2 = setTimeout now ShowListening 500 s1
      in s2\<lparr>startBtn := insert ''recording'' (startBtn s2 - {''hidden''}),
             sendBtn := sendBtn s2 - {''hidden''},
             stopBtn := stopBtn s2 - {''hidden''},
             interruptBtn := insert ''hidden'' (interruptBtn s2)\<rparr>)"
| "onMessage now HardStopped s =
     s\<lparr>isRecording := False, isDictationActive := False, isModelResponding := False,
       isSending := False, transcription := [], voiceText := [],
       messageStatus := ''Ready'',
       statusPill := insert ''ready''
         (statusPill s - {''paused'', ''thinking'', ''speaking'', ''listening''}),
       startBtn := startBtn s - {''hidden'', ''recording'', ''paused''},
       sendBtn := insert ''hidden'' (sendBtn s),
       interruptBtn := insert ''hidden'' (interruptBtn s),
       stopBtn := insert ''hidden'' (stopBtn s)\<rparr>"

text \<open>
  The timer that runs next: the one due first, the one set first among those due at
  the same time. \<open>fireNext now\<close> runs it if it is due at \<open>now\<close>.
\<close>

fun pick :: "(int \<times> timer) list \<Rightarrow> ((int \<times> timer) \<times> (int \<times> timer) list) option" where
  "pick [] = None"
| "pick (x # xs) =
     (case pick xs of
        None \<Rightarrow> Some (x, [])
      | Some (y, ys) \<Rightarrow> if fst x \<le> fst y then Some (x, xs) else Some (y, x # ys))"

definition fireNext :: "int \<Rightarrow> webview \<Rightarrow> webview" where
  "fireNext now s =
     (case pick (timers s) of
        None \<Rightarrow> s
      | Some ((due, f), rest) \<Rightarrow>
          if due \<le> now then runTimer now f (s\<lparr>timers := rest\<rparr>) else s)"

text \<open>
  What can happen to the page, each with the time it happens at: a click on the send
  button, a message from the extension, a timer running.
\<close>

datatype event = SendClick | Message ui_message | TimerRuns

fun step :: "webview \<Rightarrow> int \<times> event \<Rightarrow> webview" where
  "step s (now, SendClick) = sendClick now s"
| "step s (now, Message m) = onMessage now m s"
| "step s (now, TimerRuns) = fireNext now s"

definition run :: "(int \<times> event) list \<Rightarrow> webview \<Rightarrow> webview" where
  "run es s = foldl step s es"

text \<open>
  Running every pending timer, each \<open>late\<close> milliseconds after it is due, at most \<open>n\<close>
  of them.
\<close>

fun drain :: "nat \<Rightarrow> int \<Rightarrow> webview \<Rightarrow> webview" where
  "drain 0 late s = s"
| "drain (Suc n) late s =
     (case pick (timers s) of
        None \<Rightarrow> s
      | Some ((due, f), rest) \<Rightarrow> drain n late (runTimer (due + late) f (s\<lparr>timers := rest\<rparr>)))"

text \<open>The messages that end a turn for the page: each of them clears \<open>isSending\<close>.\<close>

fun endsTurn :: "ui_message \<Rightarrow> bool" where
  "endsTurn AudioComplete = True"
| "endsTurn (ErrorMessage text) = True"
| "endsTurn Interrupted = True"
| "endsTurn HardStopped = True"
| "endsTurn m = False"

fun isSendToModel :: "ext_message \<Rightarrow> bool" where
  "isSendToModel (SendToModel text) = True"
| "isSendToModel m = False"

definition sends :: "webview \<Rightarrow> nat" where
  "sends s = length (filter isSendToModel (outbox s))"

section \<open>Scenarios\<close>

text \<open>
  The socket's \<open>message\<close> events in the order they arrive, each parsed and handed to
  \<open>handleResponse\<close>.
\<close>

definition receive :: "response list \<Rightarrow> client \<Rightarrow> client" where
  "receive rs c = foldl (\<lambda>c r. handleResponse r c) c rs"

text \<open>
  A message is the terminal signal of a turn when \<open>handleResponse\<close> gets as far as its
  \<open>turnComplete\<close> test and finds the flag set.
\<close>

definition terminal :: "response \<Rightarrow> bool" where
  "terminal r =
     (error r = None \<and> \<not> setupComplete r
      \<and> \<not> transcriptionPresent (inputTranscription r)
      \<and> modelTurnParts r = None \<and> turnComplete r)"

text \<open>The response text one message carries, and the text a run of messages adds up to.\<close>

definition responseText :: "response \<Rightarrow> string" where
  "responseText r =
     (if error r = None \<and> \<not> setupComplete r
         \<and> \<not> transcriptionPresent (inputTranscription r)
      then (case modelTurnParts r of None \<Rightarrow> [] | Some ps \<Rightarrow> concat (map or_empty ps))
      else [])"

definition partialText :: "response list \<Rightarrow> string" where
  "partialText rs = concat (map responseText rs)"

text \<open>
  No request has called \<open>resolve\<close> or \<open>reject\<close> more than once, and none has called
  either while its \<open>resolved\<close> flag is unset.
\<close>

definition settlesOnce :: "client \<Rightarrow> bool" where
  "settlesOnce c =
     (\<forall>j. length (settled (requests c j)) \<le> (if resolved (requests c j) then 1 else 0))"

definition emptyResponse :: response where
  "emptyResponse =
     \<lparr>error = None, setupComplete = False, inputTranscription = None,
      modelTurnParts = None, turnComplete = False, interrupted = False\<rparr>"

definition turnCompleteOnly :: response where
  "turnCompleteOnly = emptyResponse\<lparr>turnComplete := True\<rparr>"

definition streamedParts :: response where
  "streamedParts = emptyResponse\<lparr>modelTurnParts := Some [Some ''Recur'', None, Some ''sion'']\<rparr>"

text \<open>A client whose socket is open: fresh, and after the user has dictated a sentence.\<close>

definition openClient :: client where
  "openClient = newClient\<lparr>ws := Some OPEN\<rparr>"

definition dictatedClient :: client where
  "dictatedClient = openClient\<lparr>currentTranscription := ''Explain recursion''\<rparr>"

text \<open>
  A workspace for the default budget: folder \<open>w\<close>, one open file \<open>a.ts\<close> of 49953
  characters, all of it selected, and no attached file.
\<close>

definition selectAll :: string where
  "selectAll = replicate 49953 (CHR ''x'')"

definition selectAllWorkspace :: workspace where
  "selectAllWorkspace =
     \<lparr>getContext = Some
        \<lparr>workspaceName = ''w'', workspacePath = ''/w'', openFiles = [],
         activeFile = Some \<lparr>path = ''/w/a.ts'', relativePath = ''a.ts'', name = ''a.ts'',
                             content = Some selectAll, language = Some ''typescript''\<rparr>,
         selectedText = Some selectAll, recentFiles = []\<rparr>,
      readFile = (\<lambda>_. None)\<rparr>"

text \<open>
  The provider as constructed (the speech key is never empty: the constructor falls back
  to a constant); while the user dictates on an open session; while the answer is being
  played; and in that last state after the socket has closed.
\<close>

definition idleProvider :: provider where
  "idleProvider =
     \<lparr>audioCapture = \<lparr>process = None, recorders = []\<rparr>, geminiClient = None,
      heap = (\<lambda>_. newClient), nextClient = 0,
      elevenLabsApiKey = ''sk'', audioPlayer = None, contextFiles = [], posted = [],
      effects = []\<rparr>"

definition listeningProvider :: provider where
  "listeningProvider =
     idleProvider\<lparr>audioCapture := \<lparr>process = Some 0, recorders = [Running]\<rparr>,
                  geminiClient := Some 0,
                  heap := (\<lambda>_. newClient)(0 := dictatedClient), nextClient := 1\<rparr>"

definition speakingProvider :: provider where
  "speakingProvider =
     listeningProvider\<lparr>audioCapture := \<lparr>process = Some 0, recorders = [Killed]\<rparr>,
       heap := (\<lambda>_. newClient)(0 := dictatedClient\<lparr>currentModelResponse := ''Recursion is''\<rparr>),
       audioPlayer := Some Running\<rparr>"

definition droppedProvider :: provider where
  "droppedProvider =
     speakingProvider\<lparr>
       heap := (\<lambda>_. newClient)
         (0 := dictatedClient\<lparr>currentModelResponse := ''Recursion is'', ws := None\<rparr>)\<rparr>"

text \<open>
  The page while the user dictates: recording has started and the transcription
  \<open>Explain recursion\<close> has arrived, both at time 0.
\<close>

definition dictatingWebview :: webview where
  "dictatingWebview =
     run [(0, Message RecordingStarted),
          (0, Message (TranscriptionUpdate ''Explain recursion'' False))] initialWebview"

text \<open>
  A send is armed when nothing is in flight, there is something to send and a retry is
  pending. The messages after which the page has nothing left to send are the two that
  follow the user's interrupt and hard stop, and a transcription update that is blank.
\<close>

definition armed :: "webview \<Rightarrow> bool" where
  "armed s =
     (\<not> isSending s \<and> trim (transcription s) \<noteq> [] \<and> RetrySend \<in> snd ` set (timers s))"

fun clearsTranscription :: "ui_message \<Rightarrow> bool" where
  "clearsTranscription Interrupted = True"
| "clearsTranscription HardStopped = True"
| "clearsTranscription (TranscriptionUpdate text isFinal) = (trim text = [])"
| "clearsTranscription m = False"

text \<open>
  A retry is early when, run \<open>late\<close> milliseconds after it is due, it still falls inside
  the window that began at the last transcription update. \<open>backlog\<close> bounds the number
  of timers that run before an armed send goes out: every pending timer, and once more
  for every early retry.
\<close>

definition early :: "int \<Rightarrow> int \<Rightarrow> int \<times> timer \<Rightarrow> bool" where
  "early late updated x = (snd x = RetrySend \<and> fst x + late - updated < sendDebounceMs)"

definition backlog :: "int \<Rightarrow> webview \<Rightarrow> nat" where
  "backlog late s =
     length (timers s) + length (filter (early late (lastTranscriptionUpdate s)) (timers s))"

text \<open>
  The start button clicked twice before the first socket has opened, in a window with
  no folder: each click makes a client, the second replacing the first in the provider's
  field, and both sockets open and complete their setup.
\<close>

definition emptyFolder :: workspace where
  "emptyFolder = \<lparr>getContext = None, readFile = (\<lambda>_. None)\<rparr>"

definition setupDone :: response where
  "setupDone = emptyResponse\<lparr>setupComplete := True\<rparr>"

definition startedTwice :: provider where
  "startedTwice =
     deliver 1 setupDone (onClient 1 onOpen
       (deliver 0 setupDone (onClient 0 onOpen
         (startDictation emptyFolder (startDictation emptyFolder idleProvider)))))"

text \<open>
  The same two clicks where only the second socket has opened before hard stop, and the
  first opens and completes its setup after it.
\<close>

definition stoppedEarly :: provider where
  "stoppedEarly =
     deliver 0 setupDone (onClient 0 onOpen
       (handleHardStop
         (deliver 1 setupDone (onClient 1 onOpen
           (startDictation emptyFolder (startDictation emptyFolder idleProvider))))))"

text \<open>
  A turn interrupted while its request is pending: the user has sent \<open>Explain recursion\<close>,
  interrupts before any answer, and dictates \<open>again\<close>.
\<close>

definition again :: response where
  "again = emptyResponse\<lparr>inputTranscription := Some (TrString ''again'')\<rparr>"

definition interruptedTurn :: provider where
  "interruptedTurn =
     deliver 0 again
       (handleInterrupt
         (sendRequest True True (fst (sendEnter (stopDictation listeningProvider)))))"

section \<open>Properties of the context builder\<close>

text \<open>
  C1. The claim: for every list of attached files and every workspace, the blob returned by
  \<open>buildContextForPrompt\<close> is at most \<open>maxChars\<close> long. The code breaks it with the default
  budget of 50000: the header takes 17 characters, the selection section 49982, which
  leaves 1; the active file is then added because 1 is positive, its content cut to
  \<open>substring(0, 1 - 200)\<close>, the empty string, and the section around it is 89 characters
  long. The blob is 50088 characters long.
\<close>

theorem buildContextForPrompt_exceeds_budget:
  "length (buildContextForPrompt selectAllWorkspace [] defaultMaxChars) = 50088
   \<and> int (length (buildContextForPrompt selectAllWorkspace [] defaultMaxChars)) > defaultMaxChars"
  by (simp add: buildContextForPrompt_def addContext_def addActiveFile_def addSelection_def
      workspaceHeader_def selectedSection_def activeSection_def truncatedContent_def
      substring0_def truthy_def interpolate_def or_empty_def selectAllWorkspace_def
      selectAll_def defaultMaxChars_def Let_def)

section \<open>Properties of the session client\<close>

lemma invoke_not_final:
  "invoke h text False c = c\<lparr>calls := calls c @ [OnModelResponse text False]\<rparr>"
  by (induction h) (simp_all add: Let_def)

lemma addParts_keeps:
  "requests (addParts ps c) = requests c \<and> onModelResponse (addParts ps c) = onModelResponse c
   \<and> timeouts (addParts ps c) = timeouts c
   \<and> currentModelResponse (addParts ps c) = currentModelResponse c @ concat (map or_empty ps)"
proof (induction ps arbitrary: c)
  case Nil
  then show ?case by simp
next
  case (Cons p ps)
  show ?case
  proof (cases "truthy p")
    case True
    then obtain t where "p = Some t" "t \<noteq> []"
      by (auto simp: truthy_def split: option.splits)
    then show ?thesis using Cons.IH
      by (simp add: truthy_def or_empty_def fireModelResponse_def invoke_not_final Let_def)
  next
    case False
    then have "or_empty p = []"
      by (auto simp: truthy_def or_empty_def split: option.splits)
    with False show ?thesis using Cons.IH by simp
  qed
qed

lemma handleResponse_keeps:
  assumes "\<not> terminal r"
  shows "requests (handleResponse r c) = requests c
   \<and> onModelResponse (handleResponse r c) = onModelResponse c
   \<and> timeouts (handleResponse r c) = timeouts c
   \<and> currentModelResponse (handleResponse r c) = currentModelResponse c @ responseText r"
  using assms
  by (auto simp: handleResponse_def terminal_def responseText_def addParts_keeps Let_def
      split: option.splits)

lemma receive_keeps:
  assumes "\<forall>r \<in> set rs. \<not> terminal r"
  shows "requests (receive rs c) = requests c
   \<and> onModelResponse (receive rs c) = onModelResponse c
   \<and> timeouts (receive rs c) = timeouts c
   \<and> currentModelResponse (receive rs c) = currentModelResponse c @ partialText rs"
  using assms
proof (induction rs arbitrary: c)
  case Nil
  then show ?case by (simp add: receive_def partialText_def)
next
  case (Cons r rs)
  then have "\<not> terminal r" and rest: "\<forall>r \<in> set rs. \<not> terminal r" by simp_all
  from handleResponse_keeps[OF \<open>\<not> terminal r\<close>, of c] Cons.IH[OF rest, of "handleResponse r c"]
  show ?case by (simp add: receive_def partialText_def)
qed

text \<open>
  On the paths that set the timer, a request settles its promise at most once: the
  handler and the timer both test and set the \<open>resolved\<close> flag. The property holds of a
  new client and is kept by a request whose sends go through, by every server message
  and by every timer.
\<close>

lemma settlesOnceD:
  "settlesOnce c \<Longrightarrow> length (settled (requests c j)) \<le> (if resolved (requests c j) then 1 else 0)"
  by (simp add: settlesOnce_def)

lemma invoke_settlesOnce: "settlesOnce c \<Longrightarrow> settlesOnce (invoke h text isFinal c)"
proof (induction h arbitrary: c)
  case Original
  then show ?case by (simp add: settlesOnce_def)
next
  case (Wrapper i orig)
  define c1 where "c1 = invoke orig text isFinal c"
  from Wrapper.IH[OF Wrapper.prems] have s: "settlesOnce c1" by (simp add: c1_def)
  show ?case
    unfolding settlesOnce_def
  proof
    fix j
    from settlesOnceD[OF s, of j] settlesOnceD[OF s, of i]
    show "length (settled (requests (invoke (Wrapper i orig) text isFinal c) j))
        \<le> (if resolved (requests (invoke (Wrapper i orig) text isFinal c) j) then 1 else 0)"
      by (auto simp: Let_def settle_def setResolved_def c1_def[symmetric] split: if_splits)
  qed
qed

lemma addParts_settlesOnce: "settlesOnce c \<Longrightarrow> settlesOnce (addParts ps c)"
proof (induction ps arbitrary: c)
  case Nil
  then show ?case by simp
next
  case (Cons p ps)
  have "settlesOnce (c\<lparr>currentModelResponse := x\<rparr>)" for x
    using Cons.prems by (simp add: settlesOnce_def)
  then show ?case using Cons
    by (simp add: Let_def fireModelResponse_def invoke_settlesOnce)
qed

lemma settlesOnce_calls: "settlesOnce c \<Longrightarrow> settlesOnce (c\<lparr>calls := x\<rparr>)"
  by (simp add: settlesOnce_def)

lemma settlesOnce_transcription:
  "settlesOnce c \<Longrightarrow> settlesOnce (c\<lparr>currentTranscription := x, calls := y\<rparr>)"
  by (simp add: settlesOnce_def)

lemma handleResponse_settlesOnce: "settlesOnce c \<Longrightarrow> settlesOnce (handleResponse r c)"
  by (simp add: handleResponse_def Let_def addParts_settlesOnce fireModelResponse_def
      invoke_settlesOnce settlesOnce_calls settlesOnce_transcription split: option.splits)

lemma timeoutFired_settlesOnce:
  assumes "settlesOnce c" shows "settlesOnce (timeoutFired i c)"
  unfolding settlesOnce_def
proof
  fix j
  from settlesOnceD[OF assms, of j] settlesOnceD[OF assms, of i]
  show "length (settled (requests (timeoutFired i c) j))
        \<le> (if resolved (requests (timeoutFired i c) j) then 1 else 0)"
    by (auto simp: timeoutFired_def Let_def settle_def setResolved_def split: if_splits)
qed

lemma requestModelResponse_settlesOnce:
  assumes "settlesOnce c" "ws c = Some OPEN"
  shows "settlesOnce (requestModelResponse True True c)"
  unfolding settlesOnce_def
proof
  fix j
  from settlesOnceD[OF assms(1), of j] assms(2)
  show "length (settled (requests (requestModelResponse True True c) j))
        \<le> (if resolved (requests (requestModelResponse True True c) j) then 1 else 0)"
    by (auto simp: requestModelResponse_def Let_def split: if_splits)
qed

lemma settlesOnce_newClient: "settlesOnce newClient"
  by (simp add: settlesOnce_def newClient_def)

lemma settlesOnce_at_most_one: "settlesOnce c \<Longrightarrow> length (settled (requests c i)) \<le> 1"
  using settlesOnceD[of c i] by (auto split: if_splits)

text \<open>
  C3. A turn-completion request made on an open socket sets a timer of 30000 ms. If
  none of the messages that arrive before the timer runs is the terminal signal of the
  turn, the promise is still pending when the timer runs, the response buffer holds the
  text those messages added up to, and the timer resolves the promise with that text
  when it is not empty and rejects it with the timeout error when it is empty.
\<close>

theorem timeout_resolves_with_partial_text_or_rejects:
  assumes "ws c = Some OPEN" and "\<forall>r \<in> set rs. \<not> terminal r"
  shows "let i = nextRequest c; c1 = receive rs (requestModelResponse True True c) in
           (responseTimeoutMs, i) \<in> set (timeouts c1)
         \<and> promise c1 i = None
         \<and> currentModelResponse c1 = partialText rs
         \<and> promise (timeoutFired i c1) i =
             Some (if partialText rs \<noteq> [] then Resolve (partialText rs)
                   else Reject ResponseTimeout)"
proof -
  define i where "i = nextRequest c"
  define c0 where "c0 = requestModelResponse True True c"
  define c1 where "c1 = receive rs c0"
  have r0: "requests c0 i = \<lparr>originalCallback = onModelResponse c, resolved = False, settled = []\<rparr>"
    and t0: "(responseTimeoutMs, i) \<in> set (timeouts c0)"
    and m0: "currentModelResponse c0 = []"
    using assms(1) by (simp_all add: c0_def i_def requestModelResponse_def Let_def)
  from receive_keeps[OF assms(2), of c0]
  have k: "requests c1 = requests c0" "timeouts c1 = timeouts c0"
    "currentModelResponse c1 = partialText rs"
    by (simp_all add: c1_def m0)
  have "promise c1 i = None" by (simp add: promise_def k r0)
  moreover have "promise (timeoutFired i c1) i =
      Some (if partialText rs \<noteq> [] then Resolve (partialText rs) else Reject ResponseTimeout)"
    by (simp add: timeoutFired_def promise_def k r0 settle_def setResolved_def Let_def)
  ultimately show ?thesis using t0 k by (simp add: Let_def i_def c0_def c1_def)
qed

text \<open>
  C3, at concrete inputs: after the parts \<open>Recur\<close> and \<open>sion\<close> the timer resolves the
  request with \<open>Recursion\<close>; after no message at all it rejects it with the timeout error.
\<close>

theorem timeout_resolves_with_partial_text_or_rejects_witness:
  "ws dictatedClient = Some OPEN \<and> \<not> terminal streamedParts
   \<and> promise (timeoutFired 0 (receive [streamedParts]
        (requestModelResponse True True dictatedClient))) 0 = Some (Resolve ''Recursion'')
   \<and> promise (timeoutFired 0 (receive []
        (requestModelResponse True True dictatedClient))) 0 = Some (Reject ResponseTimeout)"
proof -
  have o: "ws dictatedClient = Some OPEN"
    by (simp add: dictatedClient_def openClient_def newClient_def)
  have n: "\<not> terminal streamedParts"
    by (simp add: terminal_def streamedParts_def emptyResponse_def)
  have z: "nextRequest dictatedClient = 0"
    by (simp add: dictatedClient_def openClient_def newClient_def)
  have p: "responseText streamedParts = ''Recursion''"
    by (simp add: responseText_def streamedParts_def emptyResponse_def
        transcriptionPresent_def or_empty_def)
  from timeout_resolves_with_partial_text_or_rejects[of dictatedClient "[streamedParts]"]
    timeout_resolves_with_partial_text_or_rejects[of dictatedClient "[]"]
  show ?thesis using o n by (simp add: Let_def z p partialText_def)
qed

text \<open>
  C9, as the code has it. With both sends going through, a turn-completion request on an
  open socket sends the end-of-audio message (a \<open>realtimeInput\<close> with no chunk) and then
  one \<open>clientContent\<close> message marked turn-complete, whose text is the accumulated
  transcription when that is not empty and the fixed sentence
  \<open>Hello, please respond to me.\<close> when it is; on a socket that is not open it sends
  nothing.
\<close>

theorem requestModelResponse_sends_audio_end_then_turn:
  "socket (requestModelResponse True True c) =
     socket c @
     (if ws c = Some OPEN
      then [Send (RealtimeInput []),
            Send (ClientContent (if currentTranscription c \<noteq> [] then currentTranscription c
                                 else fallbackText) True)]
      else [])"
  by (simp add: requestModelResponse_def Let_def settle_def)

text \<open>C9 at a concrete input: the dictated sentence is what is submitted.\<close>

theorem requestModelResponse_sends_audio_end_then_turn_witness:
  "socket (requestModelResponse True True dictatedClient) =
     [Send (RealtimeInput []), Send (ClientContent ''Explain recursion'' True)]"
  using requestModelResponse_sends_audio_end_then_turn[of dictatedClient]
  by (simp add: dictatedClient_def openClient_def newClient_def)

text \<open>
  C9 as claimed fails: on an open socket with an empty transcription buffer the request
  does not submit the (empty) transcription; it submits the fixed sentence.
\<close>

theorem requestModelResponse_empty_transcription_counterexample:
  "ws openClient = Some OPEN \<and> currentTranscription openClient = []
   \<and> Send (ClientContent (currentTranscription openClient) True)
       \<notin> set (socket (requestModelResponse True True openClient))
   \<and> socket (requestModelResponse True True openClient) =
       [Send (RealtimeInput []), Send (ClientContent ''Hello, please respond to me.'' True)]"
  by (simp add: requestModelResponse_def Let_def settle_def openClient_def newClient_def
      fallbackText_def)

text \<open>
  C10. The claim: on every path that settles the promise of \<open>requestModelResponse\<close> the
  swapped \<open>onModelResponse\<close> callback is put back. The code breaks it when the first
  \<open>ws.send\<close> throws: the promise is rejected, the function returns before the timer is
  set, and the wrapper of the request stays in \<open>callbacks.onModelResponse\<close>. It is
  still there when the server ends the turn: it then calls \<open>resolve\<close> on the promise
  it has rejected.
\<close>

theorem send_failure_leaves_wrapper_installed:
  "onModelResponse openClient = Original
   \<and> promise (requestModelResponse False True openClient) 0 = Some (Reject AudioEndFailed)
   \<and> onModelResponse (requestModelResponse False True openClient) = Wrapper 0 Original
   \<and> timeouts (requestModelResponse False True openClient) = []
   \<and> settled (requests (handleResponse turnCompleteOnly
         (requestModelResponse False True openClient)) 0) = [Reject AudioEndFailed, Resolve []]"
  by (simp add: requestModelResponse_def Let_def settle_def openClient_def newClient_def
      promise_def handleResponse_def turnCompleteOnly_def emptyResponse_def
      transcriptionPresent_def fireModelResponse_def setResolved_def)

section \<open>Properties of the coordinator\<close>

lemmas concrete =
  idleProvider_def listeningProvider_def speakingProvider_def droppedProvider_def
  dictatedClient_def openClient_def newClient_def




text \<open>
  C5. The claim: every failure path of a turn posts \<open>audioComplete\<close> or \<open>error\<close>. The code
  breaks it on the empty model response: once the promise has resolved with the empty
  text, \<open>handleSendToModel\<close> returns without posting anything, whatever the state. That
  happens when the server ends the turn without any model text: on a session in which
  the user has dictated, the request resolves with the empty text and the only message
  of the whole turn is \<open>thinking\<close>.
\<close>

theorem empty_response_posts_no_terminal_message:
  "sendResume (Resolve []) tts played p = p
   \<and> (let p1 = sendRequest True True (fst (sendEnter listeningProvider));
          p2 = onClient 0 (handleResponse turnCompleteOnly) p1
      in snd (sendEnter listeningProvider)
       \<and> promise (heap p2 0) 0 = Some (Resolve [])
       \<and> posted (sendResume (Resolve []) tts played p2) = [Thinking])"
  by (simp add: sendResume_def sendEnter_def sendRequest_def connected_def isConnected_def
      concrete onClient_def post_def requestModelResponse_def handleResponse_def
      turnCompleteOnly_def emptyResponse_def transcriptionPresent_def fireModelResponse_def
      settle_def setResolved_def promise_def Let_def)

text \<open>
  C6, as the code has it. A send while the session is not connected posts
  \<open>audioComplete\<close>, not an error, and goes no further; a send whose request is rejected
  (the socket not open, a send that throws, the timeout with no partial text) posts an
  error. Neither calls the speech service or the player. Either message clears the
  page's send lock and shows the start button.
\<close>

theorem failed_send_returns_to_start_without_speaking:
  "(\<not> connected p \<longrightarrow>
       sendEnter p = (post AudioComplete p, False)
     \<and> posted (fst (sendEnter p)) = posted p @ [AudioComplete]
     \<and> effects (fst (sendEnter p)) = effects p
     \<and> audioPlayer (fst (sendEnter p)) = audioPlayer p)
   \<and> posted (sendResume (Reject e) tts played p)
        = posted p @ [ErrorMessage (''Failed to get response: '' @ errorText e)]
   \<and> effects (sendResume (Reject e) tts played p) = effects p
   \<and> audioPlayer (sendResume (Reject e) tts played p) = audioPlayer p
   \<and> \<not> isSending (onMessage now AudioComplete s)
   \<and> ''hidden'' \<notin> startBtn (onMessage now AudioComplete s)
   \<and> \<not> isSending (onMessage now (ErrorMessage text) s)
   \<and> ''hidden'' \<notin> startBtn (onMessage now (ErrorMessage text) s)"
  by (auto simp: sendEnter_def sendResume_def sendFailed_def resetCurrent_def post_def
      onClient_def split: option.splits)

text \<open>C6 at a concrete input: a send after the socket has closed.\<close>

theorem failed_send_returns_to_start_without_speaking_witness:
  "\<not> connected droppedProvider
   \<and> posted (fst (sendEnter droppedProvider)) = [AudioComplete]
   \<and> effects (fst (sendEnter droppedProvider)) = []
   \<and> \<not> snd (sendEnter droppedProvider)"
proof -
  have a: "\<not> connected droppedProvider" "posted droppedProvider = []"
    "effects droppedProvider = []"
    by (simp_all add: concrete connected_def isConnected_def)
  from failed_send_returns_to_start_without_speaking[of droppedProvider] a
  show ?thesis by (simp add: post_def)
qed

text \<open>
  C6 as claimed fails twice. A send on the provider as constructed, which has no session,
  posts \<open>audioComplete\<close> and no error. And a request that times out after the parts
  \<open>Recur\<close> and \<open>sion\<close> resolves with \<open>Recursion\<close>, after which the speech service and
  the player are called and no error is posted.
\<close>

theorem send_without_session_counterexample:
  "\<not> connected idleProvider \<and> posted (fst (sendEnter idleProvider)) = [AudioComplete]
   \<and> (let p1 = sendRequest True True (fst (sendEnter listeningProvider));
           p2 = onClient 0 (timeoutFired 0) (onClient 0 (receive [streamedParts]) p1);
           p3 = sendResume (Resolve ''Recursion'') (Some [1, 2, 3]) None p2
       in promise (heap p2 0) 0 = Some (Resolve ''Recursion'')
        \<and> effects p3 = [TextToSpeech ''Recursion'', Play [1, 2, 3]]
        \<and> posted p3 = [Thinking, ModelResponse ''Recursion'', AudioComplete])"
  by (simp add: sendResume_def sendEnter_def sendRequest_def connected_def isConnected_def
      concrete onClient_def post_def requestModelResponse_def handleResponse_def
      streamedParts_def emptyResponse_def transcriptionPresent_def fireModelResponse_def
      settle_def setResolved_def promise_def Let_def receive_def timeoutFired_def truthy_def
      isConfigured_def resetCurrent_def resetTranscription_def)

lemma handleHardStop_held:
  "(let p' = handleHardStop p in
      geminiClient p' = None
    \<and> audioPlayer p' = None
    \<and> posted p' = posted p @ [HardStopped]
    \<and> audioCapture p' = stopRecording (audioCapture p)
    \<and> (\<forall>a. geminiClient p = Some a \<longrightarrow>
          ws (heap p' a) = None \<and> currentTranscription (heap p' a) = []
        \<and> currentModelResponse (heap p' a) = []
        \<and> (ws (heap p a) \<noteq> None \<longrightarrow> socket (heap p' a) = socket (heap p a) @ [Close]))
    \<and> (let p'' = startDictation w p' in
          geminiClient p'' = Some (nextClient p)
        \<and> heap p'' (nextClient p) =
            newClient\<lparr>workspaceContext :=
                        buildContextForPrompt w (contextFiles p) defaultMaxChars,
                      ws := Some CONNECTING\<rparr>))"
  by (auto simp: handleHardStop_def Let_def stopRecording_def stop_def post_def onClient_def
      disconnect_def startDictation_def connected_def setWorkspaceContext_def connect_def
      split: option.splits)

lemma startedTwice_fields:
  "geminiClient startedTwice = Some 1"
  "recorders (audioCapture startedTwice) = [Running, Running]"
  "process (audioCapture startedTwice) = Some 1"
  "ws (heap startedTwice 0) = Some OPEN" "ws (heap startedTwice 1) = Some OPEN"
  "posted startedTwice = [RecordingStarted, RecordingStarted]"
  by (simp_all add: startedTwice_def deliver_def startDictation_def connected_def
      isConnected_def idleProvider_def newClient_def onClient_def setWorkspaceContext_def
      connect_def onOpen_def handleResponse_def setupDone_def emptyResponse_def Let_def
      startAudioCapture_def startRecording_def post_def)

text \<open>
  C8. The claim: from every state hard stop leaves no session and no open recording
  stream. The code breaks it for what the provider no longer holds. After the start
  button has been clicked twice before the first socket opened, two recorders run and
  two sockets are open, the provider holding the second of each; hard stop kills the
  second recorder and closes the second socket, and the first recorder keeps running
  and the first socket stays open. And when the first socket opens only after hard
  stop, its client starts a recorder then: the page is told \<open>recordingStarted\<close> after
  \<open>hardStopped\<close>, with no client held.
\<close>

theorem hard_stop_leaves_orphans_running:
  "geminiClient (handleHardStop startedTwice) = None
   \<and> posted (handleHardStop startedTwice) = [RecordingStarted, RecordingStarted, HardStopped]
   \<and> recorders (audioCapture (handleHardStop startedTwice)) = [Running, Killed]
   \<and> recording (audioCapture (handleHardStop startedTwice))
   \<and> ws (heap (handleHardStop startedTwice) 1) = None
   \<and> ws (heap (handleHardStop startedTwice) 0) = Some OPEN
   \<and> geminiClient stoppedEarly = None
   \<and> posted stoppedEarly = [RecordingStarted, HardStopped, RecordingStarted]
   \<and> recorders (audioCapture stoppedEarly) = [Killed, Running]
   \<and> ws (heap stoppedEarly 0) = Some OPEN"
proof -
  have a: "geminiClient (handleHardStop startedTwice) = None
   \<and> posted (handleHardStop startedTwice) = [RecordingStarted, RecordingStarted, HardStopped]
   \<and> recorders (audioCapture (handleHardStop startedTwice)) = [Running, Killed]
   \<and> recording (audioCapture (handleHardStop startedTwice))
   \<and> ws (heap (handleHardStop startedTwice) 1) = None
   \<and> ws (heap (handleHardStop startedTwice) 0) = Some OPEN"
    using startedTwice_fields
    by (simp add: handleHardStop_def Let_def stopRecording_def stop_def post_def onClient_def
        disconnect_def recording_def)
  have b: "geminiClient stoppedEarly = None
   \<and> posted stoppedEarly = [RecordingStarted, HardStopped, RecordingStarted]
   \<and> recorders (audioCapture stoppedEarly) = [Killed, Running]
   \<and> ws (heap stoppedEarly 0) = Some OPEN"
    by (simp add: stoppedEarly_def deliver_def startDictation_def connected_def
        isConnected_def idleProvider_def newClient_def onClient_def setWorkspaceContext_def
        connect_def onOpen_def handleResponse_def setupDone_def emptyResponse_def Let_def
        startAudioCapture_def startRecording_def post_def handleHardStop_def
        stopRecording_def stop_def disconnect_def)
  from a b show ?thesis by simp
qed

section \<open>Properties of the send button\<close>

lemma trim_empty: "trim [] = []"
  by (simp add: trim_def)

lemma trim_dictated: "trim ''Explain recursion'' = ''Explain recursion''"
  by (simp add: trim_def is_ws_def)

lemma dictating_fields:
  "\<not> isSending dictatingWebview" "transcription dictatingWebview = ''Explain recursion''"
  "lastTranscriptionUpdate dictatingWebview = 0" "timers dictatingWebview = []"
  "outbox dictatingWebview = []" "isRecording dictatingWebview"
  by (simp_all add: dictatingWebview_def run_def initialWebview_def)

lemma sendClick_deferred:
  assumes "\<not> isSending s" "trim (transcription s) \<noteq> []"
    "now - lastTranscriptionUpdate s < sendDebounceMs"
  shows "sendClick now s = s\<lparr>messageStatus := ''Finishing...'',
           timers := timers s @ [(lastTranscriptionUpdate s + 350, RetrySend)]\<rparr>"
  using assms by (simp add: sendClick_def Let_def setTimeout_def sendDebounceMs_def)

lemma sendClick_sent:
  assumes "\<not> isSending s" "trim (transcription s) \<noteq> []"
    "\<not> now - lastTranscriptionUpdate s < sendDebounceMs"
  shows "outbox (sendClick now s) = outbox s @ (if isRecording s then [StopDictation] else [])
            @ [SendToModel (trim (transcription s))]"
    "isSending (sendClick now s)" "timers (sendClick now s) = timers s"
    "transcription (sendClick now s) = []"
  using assms by (simp_all add: sendClick_def Let_def postMessage_def)

lemma sendClick_refused: "isSending s \<or> trim (transcription s) = [] \<Longrightarrow> sendClick now s = s"
  by (auto simp: sendClick_def)

lemma sends_sent:
  assumes "\<not> isSending s" "trim (transcription s) \<noteq> []"
    "\<not> now - lastTranscriptionUpdate s < sendDebounceMs"
  shows "sends (sendClick now s) = Suc (sends s)"
  by (simp add: sends_def sendClick_sent(1)[OF assms])

lemma runTimer_sending:
  "isSending s \<Longrightarrow> isSending (runTimer t f s) \<and> outbox (runTimer t f s) = outbox s"
  by (cases f) (simp_all add: runTimer_def)

lemma fireNext_sending:
  "isSending s \<Longrightarrow> isSending (fireNext t s) \<and> outbox (fireNext t s) = outbox s"
  using runTimer_sending[of "s\<lparr>timers := rest\<rparr>" for rest]
  by (auto simp: fireNext_def split: option.splits prod.splits)

lemma onMessage_sending:
  "isSending s \<Longrightarrow> \<not> endsTurn m \<Longrightarrow>
     isSending (onMessage t m s) \<and> outbox (onMessage t m s) = outbox s"
  by (cases m) (simp_all add: Let_def)

lemma step_sending:
  assumes "isSending s" and "\<forall>m. snd x = Message m \<longrightarrow> \<not> endsTurn m"
  shows "isSending (step s x) \<and> outbox (step s x) = outbox s"
proof (cases x)
  case (Pair t e)
  show ?thesis
  proof (cases e)
    case SendClick
    with Pair assms show ?thesis by (simp add: sendClick_refused)
  next
    case (Message m)
    with Pair assms show ?thesis by (simp add: onMessage_sending)
  next
    case TimerRuns
    with Pair assms show ?thesis by (simp add: fireNext_sending)
  qed
qed

lemma run_sending:
  assumes "isSending s" and "\<forall>x \<in> set es. \<forall>m. snd x = Message m \<longrightarrow> \<not> endsTurn m"
  shows "isSending (run es s) \<and> outbox (run es s) = outbox s"
  using assms
proof (induction es arbitrary: s)
  case Nil
  then show ?case by (simp add: run_def)
next
  case (Cons x es)
  from Cons.prems have h: "\<forall>m. snd x = Message m \<longrightarrow> \<not> endsTurn m"
    and r: "\<forall>x \<in> set es. \<forall>m. snd x = Message m \<longrightarrow> \<not> endsTurn m" by simp_all
  from step_sending[OF Cons.prems(1) h] Cons.IH[of "step s x", OF _ r]
  show ?case by (simp add: run_def)
qed

lemma drain_step:
  "pick (timers s) = Some ((due, f), rest) \<Longrightarrow>
     drain (Suc n) late s = drain n late (runTimer (due + late) f (s\<lparr>timers := rest\<rparr>))"
  by simp

lemma drain_done: "timers s = [] \<Longrightarrow> drain n late s = s"
  by (cases n) simp_all

lemma runTimer_retry_sending: "isSending s \<Longrightarrow> runTimer t RetrySend s = s"
  by (simp add: runTimer_def)

lemma runTimer_retry_click:
  "\<not> isSending s \<Longrightarrow> trim (transcription s) \<noteq> [] \<Longrightarrow> runTimer t RetrySend s = sendClick t s"
  by (simp add: runTimer_def)

lemma two_clicks:
  assumes a: "\<not> isSending s" "trim (transcription s) \<noteq> []" and e: "timers s = []"
    and o: "t1 \<le> t2" and l: "0 \<le> late"
  shows "sends (drain (Suc (Suc 0)) late (sendClick t2 (sendClick t1 s))) = Suc (sends s)
       \<and> timers (drain (Suc (Suc 0)) late (sendClick t2 (sendClick t1 s))) = []"
proof (cases "t1 - lastTranscriptionUpdate s < sendDebounceMs")
  case False
  from sendClick_sent[OF a False] sends_sent[OF a False] have
    s1: "isSending (sendClick t1 s)" "timers (sendClick t1 s) = []"
      "sends (sendClick t1 s) = Suc (sends s)" using e by simp_all
  have "sendClick t2 (sendClick t1 s) = sendClick t1 s"
    using s1(1) by (simp add: sendClick_refused)
  then show ?thesis using s1 by (simp add: drain_done)
next
  case True
  define d where "d = lastTranscriptionUpdate s + 350"
  define s0 where "s0 = s\<lparr>messageStatus := ''Finishing...''\<rparr>"
  have c1: "sendClick t1 s = s0\<lparr>timers := [(d, RetrySend)]\<rparr>"
    using sendClick_deferred[OF a True] e by (simp add: d_def s0_def)
  have a0: "\<not> isSending (s0\<lparr>timers := ts\<rparr>)" "trim (transcription (s0\<lparr>timers := ts\<rparr>)) \<noteq> []"
    "\<not> (d + late) - lastTranscriptionUpdate (s0\<lparr>timers := ts\<rparr>) < sendDebounceMs"
    "lastTranscriptionUpdate (s0\<lparr>timers := ts\<rparr>) = lastTranscriptionUpdate s"
    "sends (s0\<lparr>timers := ts\<rparr>) = sends s" "timers (s0\<lparr>timers := ts\<rparr>) = ts" for ts
    using a l by (simp_all add: sendDebounceMs_def d_def s0_def sends_def)
  show ?thesis
  proof (cases "t2 - lastTranscriptionUpdate s < sendDebounceMs")
    case True
    define s2 where "s2 = sendClick t2 (s0\<lparr>timers := [(d, RetrySend)]\<rparr>)"
    have c2: "s2 = s0\<lparr>timers := [(d, RetrySend), (d, RetrySend)]\<rparr>"
      unfolding s2_def using sendClick_deferred[OF a0(1,2), of t2 "[(d, RetrySend)]"] True
      by (simp add: a0 d_def s0_def)
    define s3 where "s3 = sendClick (d + late) (s0\<lparr>timers := [(d, RetrySend)]\<rparr>)"
    from sendClick_sent[OF a0(1,2,3), of "[(d, RetrySend)]"] sends_sent[OF a0(1,2,3), of "[(d, RetrySend)]"]
    have s3: "isSending s3" "timers s3 = [(d, RetrySend)]" "sends s3 = Suc (sends s)"
      by (simp_all add: a0 s3_def)
    have p2: "pick (timers s2) = Some ((d, RetrySend), [(d, RetrySend)])"
      by (simp add: c2 s0_def)
    have r2: "runTimer (d + late) RetrySend (s2\<lparr>timers := [(d, RetrySend)]\<rparr>) = s3"
      unfolding s3_def using runTimer_retry_click[OF a0(1,2), of "d + late" "[(d, RetrySend)]"]
      by (simp add: c2 s0_def)
    have p3: "pick (timers s3) = Some ((d, RetrySend), [])" by (simp add: s3)
    have r3: "runTimer (d + late) RetrySend (s3\<lparr>timers := []\<rparr>) = s3\<lparr>timers := []\<rparr>"
      using s3(1) by (simp add: runTimer_retry_sending)
    have "drain (Suc (Suc 0)) late s2 = drain (Suc 0) late s3"
      by (simp only: drain_step[OF p2] r2)
    also have "\<dots> = drain 0 late (s3\<lparr>timers := []\<rparr>)"
      by (simp only: drain_step[OF p3] r3)
    finally have "drain (Suc (Suc 0)) late s2 = s3\<lparr>timers := []\<rparr>" by simp
    moreover have "sends (s3\<lparr>timers := []\<rparr>) = Suc (sends s)" using s3(3) by (simp add: sends_def)
    ultimately show ?thesis by (simp add: c1 s2_def)
  next
    case False
    define s2 where "s2 = sendClick t2 (s0\<lparr>timers := [(d, RetrySend)]\<rparr>)"
    have q: "\<not> t2 - lastTranscriptionUpdate (s0\<lparr>timers := [(d, RetrySend)]\<rparr>) < sendDebounceMs"
      using False by (simp add: a0)
    from sendClick_sent[OF a0(1,2) q] sends_sent[OF a0(1,2) q]
    have s2: "isSending s2" "timers s2 = [(d, RetrySend)]" "sends s2 = Suc (sends s)"
      by (simp_all add: a0 s2_def)
    have p2: "pick (timers s2) = Some ((d, RetrySend), [])" by (simp add: s2)
    have r2: "runTimer (d + late) RetrySend (s2\<lparr>timers := []\<rparr>) = s2\<lparr>timers := []\<rparr>"
      using s2(1) by (simp add: runTimer_retry_sending)
    have "drain (Suc (Suc 0)) late s2 = drain (Suc 0) late (s2\<lparr>timers := []\<rparr>)"
      by (simp only: drain_step[OF p2] r2)
    then have "drain (Suc (Suc 0)) late s2 = s2\<lparr>timers := []\<rparr>"
      by (simp add: drain_done)
    moreover have "sends (s2\<lparr>timers := []\<rparr>) = Suc (sends s)" using s2(3) by (simp add: sends_def)
    ultimately show ?thesis by (simp add: c1 s2_def)
  qed
qed

lemma pick_None: "pick ts = None \<longleftrightarrow> ts = []"
  by (cases ts) (auto split: option.splits prod.splits)

lemma pick_set: "pick ts = Some (x, rest) \<Longrightarrow> set ts = insert x (set rest)"
proof (induction ts arbitrary: x rest)
  case Nil
  then show ?case by simp
next
  case (Cons t ts)
  then show ?case
    by (auto simp: pick_None split: option.splits prod.splits if_splits)
qed

lemma pick_some: "ts \<noteq> [] \<Longrightarrow> \<exists>x rest. pick ts = Some (x, rest)"
  by (induction ts) (auto split: option.splits prod.splits)

lemma sendClick_armed:
  assumes "\<not> isSending s" "trim (transcription s) \<noteq> []"
  shows "(armed (sendClick t s) \<and> sends (sendClick t s) = sends s)
       \<or> sends (sendClick t s) = Suc (sends s)"
proof (cases "t - lastTranscriptionUpdate s < sendDebounceMs")
  case True
  from sendClick_deferred[OF assms True] assms show ?thesis
    by (simp add: armed_def sends_def)
next
  case False
  from sends_sent[OF assms False] show ?thesis by simp
qed

lemma onMessage_armed:
  "armed s \<Longrightarrow> \<not> clearsTranscription m \<Longrightarrow>
     armed (onMessage t m s) \<and> sends (onMessage t m s) = sends s"
  by (cases m) (simp_all add: armed_def sends_def Let_def setTimeout_def)

lemma fireNext_armed:
  assumes "armed s"
  shows "(armed (fireNext t s) \<and> sends (fireNext t s) = sends s)
       \<or> sends (fireNext t s) = Suc (sends s)"
proof (cases "pick (timers s)")
  case None
  then show ?thesis using assms by (simp add: fireNext_def)
next
  case (Some a)
  then obtain due f rest where p: "pick (timers s) = Some ((due, f), rest)"
    by (cases a) auto
  show ?thesis
  proof (cases "due \<le> t")
    case False
    then show ?thesis using assms p by (simp add: fireNext_def)
  next
    case True
    then have f: "fireNext t s = runTimer t f (s\<lparr>timers := rest\<rparr>)"
      using p by (simp add: fireNext_def)
    show ?thesis
    proof (cases f)
      case RetrySend
      have g: "\<not> isSending (s\<lparr>timers := rest\<rparr>)" "trim (transcription (s\<lparr>timers := rest\<rparr>)) \<noteq> []"
        using assms by (simp_all add: armed_def)
      from sendClick_armed[OF g, of t] show ?thesis
        using g by (simp add: f RetrySend runTimer_def sends_def)
    next
      case ShowListening
      from pick_set[OF p] assms have "RetrySend \<in> snd ` set rest"
        by (auto simp: armed_def ShowListening)
      then show ?thesis using assms
        by (simp add: f ShowListening runTimer_def armed_def sends_def)
    qed
  qed
qed

lemma step_armed:
  assumes "armed s" and "\<forall>m. snd x = Message m \<longrightarrow> \<not> clearsTranscription m"
  shows "(armed (step s x) \<and> sends (step s x) = sends s) \<or> sends (step s x) = Suc (sends s)"
proof (cases x)
  case (Pair t e)
  show ?thesis
  proof (cases e)
    case SendClick
    from assms(1) have "\<not> isSending s" "trim (transcription s) \<noteq> []" by (simp_all add: armed_def)
    from sendClick_armed[OF this, of t] show ?thesis by (simp add: Pair SendClick)
  next
    case (Message m)
    with Pair assms onMessage_armed[of s m t] show ?thesis by simp
  next
    case TimerRuns
    with Pair fireNext_armed[OF assms(1), of t] show ?thesis by simp
  qed
qed

lemma sends_sendClick: "sends s \<le> sends (sendClick t s)"
  by (simp add: sends_def sendClick_def Let_def setTimeout_def postMessage_def)

lemma sends_runTimer: "sends s \<le> sends (runTimer t f s)"
  using sends_sendClick[of s t] by (cases f) (simp_all add: runTimer_def sends_def)

lemma sends_step: "sends s \<le> sends (step s x)"
proof (cases x)
  case (Pair t e)
  show ?thesis
  proof (cases e)
    case SendClick
    then show ?thesis using Pair by (simp add: sends_sendClick)
  next
    case (Message m)
    then show ?thesis using Pair by (cases m) (simp_all add: sends_def Let_def setTimeout_def)
  next
    case TimerRuns
    have "sends (s\<lparr>timers := r\<rparr>) = sends s" for r by (simp add: sends_def)
    with sends_runTimer[of "s\<lparr>timers := r\<rparr>" for r] show ?thesis
      using Pair TimerRuns by (auto simp: fireNext_def split: option.splits prod.splits)
  qed
qed

lemma sends_run: "sends s \<le> sends (run es s)"
proof (induction es arbitrary: s)
  case Nil
  then show ?case by (simp add: run_def)
next
  case (Cons x es)
  from sends_step[of s x] Cons[of "step s x"] show ?case by (simp add: run_def)
qed

lemma run_armed:
  assumes "armed s" and "\<forall>x \<in> set es. \<forall>m. snd x = Message m \<longrightarrow> \<not> clearsTranscription m"
  shows "armed (run es s) \<or> sends s < sends (run es s)"
  using assms
proof (induction es arbitrary: s)
  case Nil
  then show ?case by (simp add: run_def)
next
  case (Cons x es)
  from Cons.prems have h: "\<forall>m. snd x = Message m \<longrightarrow> \<not> clearsTranscription m"
    and r: "\<forall>x \<in> set es. \<forall>m. snd x = Message m \<longrightarrow> \<not> clearsTranscription m" by simp_all
  have e: "run (x # es) s = run es (step s x)" by (simp add: run_def)
  from step_armed[OF Cons.prems(1) h] show ?case
  proof
    assume a: "armed (step s x) \<and> sends (step s x) = sends s"
    with Cons.IH[of "step s x", OF _ r] show ?thesis by (simp add: e)
  next
    assume "sends (step s x) = Suc (sends s)"
    with sends_run[of "step s x" es] show ?thesis by (simp add: e)
  qed
qed


lemma pick_filter:
  "pick ts = Some (x, rest) \<Longrightarrow>
     length (filter P ts) = (if P x then 1 else 0) + length (filter P rest)"
proof (induction ts arbitrary: x rest)
  case Nil
  then show ?case by simp
next
  case (Cons t ts)
  then show ?case
    by (auto simp: pick_None split: option.splits prod.splits if_splits)
qed

lemma pick_length: "pick ts = Some (x, rest) \<Longrightarrow> length ts = Suc (length rest)"
  using pick_filter[of ts x rest "\<lambda>_. True"] by simp

lemma runTimer_sending_sends: "isSending s \<Longrightarrow> isSending (runTimer t f s) \<and> sends (runTimer t f s) = sends s"
  using runTimer_sending[of s t f] by (simp add: sends_def)

lemma drain_sending: "isSending s \<Longrightarrow> sends (drain n late s) = sends s"
proof (induction n arbitrary: s)
  case 0
  then show ?case by simp
next
  case (Suc n)
  show ?case
  proof (cases "pick (timers s)")
    case None
    then show ?thesis by simp
  next
    case (Some a)
    then obtain due f rest where p: "pick (timers s) = Some ((due, f), rest)" by (cases a) auto
    have i: "isSending (s\<lparr>timers := rest\<rparr>)" "sends (s\<lparr>timers := rest\<rparr>) = sends s"
      using Suc.prems by (simp_all add: sends_def)
    from runTimer_sending_sends[OF i(1), of "due + late" f] Suc.IH[of "runTimer (due + late) f (s\<lparr>timers := rest\<rparr>)"]
    show ?thesis using i(2) by (simp add: drain_step[OF p] del: drain.simps)
  qed
qed

lemma drain_armed:
  assumes "armed s" and "0 \<le> late" and "backlog late s \<le> n"
  shows "sends (drain n late s) = Suc (sends s)"
  using assms
proof (induction n arbitrary: s)
  case 0
  then have "timers s = []" by (simp add: backlog_def)
  with 0(1) show ?case by (simp add: armed_def)
next
  case (Suc n)
  from Suc.prems(1) have ne: "timers s \<noteq> []" by (auto simp: armed_def)
  from pick_some[OF ne] obtain x rest where "pick (timers s) = Some (x, rest)" by blast
  then obtain due f where p: "pick (timers s) = Some ((due, f), rest)" by (cases x) auto
  define L where "L = lastTranscriptionUpdate s"
  define s1 where "s1 = s\<lparr>timers := rest\<rparr>"
  have d: "drain (Suc n) late s = drain n late (runTimer (due + late) f s1)"
    by (simp add: drain_step[OF p] s1_def del: drain.simps)
  have len: "length (timers s) = Suc (length rest)" by (rule pick_length[OF p])
  have fl: "length (filter (early late L) (timers s)) =
      (if early late L (due, f) then 1 else 0) + length (filter (early late L) rest)"
    by (rule pick_filter[OF p])
  have g: "\<not> isSending s1" "trim (transcription s1) \<noteq> []" "lastTranscriptionUpdate s1 = L"
    "sends s1 = sends s" "timers s1 = rest"
    using Suc.prems(1) by (simp_all add: armed_def s1_def L_def sends_def)
  show ?case
  proof (cases f)
    case ShowListening
    define s2 where "s2 = runTimer (due + late) f s1"
    from pick_set[OF p] Suc.prems(1) have "RetrySend \<in> snd ` set rest"
      by (auto simp: armed_def ShowListening)
    then have a2: "armed s2" using g by (simp add: s2_def ShowListening runTimer_def armed_def)
    have t2: "timers s2 = rest" "lastTranscriptionUpdate s2 = L" "sends s2 = sends s"
      using g by (simp_all add: s2_def ShowListening runTimer_def sends_def)
    have "backlog late s2 \<le> n"
      using Suc.prems(3) len fl
      by (simp add: backlog_def t2 L_def[symmetric] early_def ShowListening)
    from Suc.IH[OF a2 Suc.prems(2) this] show ?thesis by (simp add: d s2_def[symmetric] t2 del: drain.simps)
  next
    case RetrySend
    have r: "runTimer (due + late) f s1 = sendClick (due + late) s1"
      using g by (simp add: RetrySend runTimer_def)
    show ?thesis
    proof (cases "due + late - L < sendDebounceMs")
      case True
      define s2 where "s2 = sendClick (due + late) s1"
      have c: "s2 = s1\<lparr>messageStatus := ''Finishing...'', timers := rest @ [(L + 350, RetrySend)]\<rparr>"
        unfolding s2_def using sendClick_deferred[OF g(1,2), of "due + late"] True g by simp
      have a2: "armed s2" using g by (simp add: c armed_def)
      have t2: "lastTranscriptionUpdate s2 = L" "sends s2 = sends s"
        using g by (simp_all add: c sends_def)
      have "\<not> early late L (L + 350, RetrySend)"
        using Suc.prems(2) by (simp add: early_def sendDebounceMs_def)
      then have "backlog late s2 \<le> n"
        using Suc.prems(3) len fl True
        by (simp add: backlog_def c L_def[symmetric] early_def RetrySend g)
      from Suc.IH[OF a2 Suc.prems(2) this] show ?thesis by (simp add: d r s2_def[symmetric] t2 del: drain.simps)
    next
      case False
      then have q: "\<not> due + late - lastTranscriptionUpdate s1 < sendDebounceMs" by (simp add: g)
      from sendClick_sent(2)[OF g(1,2) q] sends_sent[OF g(1,2) q]
      have "isSending (sendClick (due + late) s1)" "sends (sendClick (due + late) s1) = Suc (sends s)"
        by (simp_all add: g)
      with drain_sending[of "sendClick (due + late) s1" n late] show ?thesis by (simp add: d r del: drain.simps)
    qed
  qed
qed

lemma backlog_bound: "backlog late s \<le> 2 * length (timers s)"
  by (simp add: backlog_def le_trans[OF length_filter_le])

lemma sends_drain: "sends s \<le> sends (drain n late s)"
proof (induction n arbitrary: s)
  case 0
  then show ?case by simp
next
  case (Suc n)
  show ?case
  proof (cases "pick (timers s)")
    case None
    then show ?thesis by simp
  next
    case (Some a)
    then obtain due f rest where p: "pick (timers s) = Some ((due, f), rest)" by (cases a) auto
    have "sends (s\<lparr>timers := rest\<rparr>) = sends s" by (simp add: sends_def)
    with sends_runTimer[of "s\<lparr>timers := rest\<rparr>" "due + late" f]
      Suc.IH[of "runTimer (due + late) f (s\<lparr>timers := rest\<rparr>)"]
    show ?thesis by (simp add: drain_step[OF p] del: drain.simps)
  qed
qed

text \<open>
  C2. A click on send while no send is in flight, the trimmed transcription is not
  empty and less than 300 ms have passed since the last transcription update sends
  nothing and sets exactly one timer, for the rest of the window plus 50 ms. When that
  timer runs it clicks send again, once, if no send is in flight and the trimmed
  transcription is not empty. On a page with no other timer it does not run before it
  is due, and when it runs the transcription is sent. The send is not lost: whatever
  clicks, timers and messages follow the deferred click, short of the messages that
  leave the page with nothing to send (those of the user's interrupt and hard stop, and
  a blank transcription), the transcription has been sent or a retry is still armed;
  and once the pending timers have run, however late, it has been sent, exactly once
  if nothing else happened after the click.
\<close>

theorem debounced_send_is_deferred_and_retried:
  assumes "\<not> isSending s" and "trim (transcription s) \<noteq> []"
    and "now - lastTranscriptionUpdate s < sendDebounceMs"
  shows "sendClick now s =
           s\<lparr>messageStatus := ''Finishing...'',
             timers := timers s @
               [(now + (sendDebounceMs - (now - lastTranscriptionUpdate s) + 50), RetrySend)]\<rparr>
       \<and> runTimer t RetrySend s' =
           (if \<not> isSending s' \<and> trim (transcription s') \<noteq> [] then sendClick t s' else s')
       \<and> (timers s = [] \<and> t < lastTranscriptionUpdate s + 350 \<longrightarrow>
            fireNext t (sendClick now s) = sendClick now s)
       \<and> (timers s = [] \<and> lastTranscriptionUpdate s + 350 \<le> t \<longrightarrow>
            outbox (fireNext t (sendClick now s)) =
              outbox s @ (if isRecording s then [StopDictation] else [])
                @ [SendToModel (trim (transcription s))]
          \<and> timers (fireNext t (sendClick now s)) = []
          \<and> isSending (fireNext t (sendClick now s)))
       \<and> ((\<forall>x \<in> set es. \<forall>m. snd x = Message m \<longrightarrow> \<not> clearsTranscription m) \<longrightarrow>
            armed (run es (sendClick now s)) \<or> sends s < sends (run es (sendClick now s)))
       \<and> ((\<forall>x \<in> set es. \<forall>m. snd x = Message m \<longrightarrow> \<not> clearsTranscription m)
            \<and> 0 \<le> late \<and> 2 * length (timers (run es (sendClick now s))) \<le> n \<longrightarrow>
            sends s < sends (drain n late (run es (sendClick now s))))
       \<and> (0 \<le> late \<and> 2 * length (timers (sendClick now s)) \<le> n \<longrightarrow>
            sends (drain n late (sendClick now s)) = Suc (sends s))"
proof -
  define s1 where "s1 = sendClick now s"
  have 1: "sendClick now s =
           s\<lparr>messageStatus := ''Finishing...'',
             timers := timers s @
               [(now + (sendDebounceMs - (now - lastTranscriptionUpdate s) + 50), RetrySend)]\<rparr>"
    using assms by (simp add: sendClick_def Let_def setTimeout_def)
  have 2: "runTimer t RetrySend s' =
           (if \<not> isSending s' \<and> trim (transcription s') \<noteq> [] then sendClick t s' else s')"
    by (simp add: runTimer_def)
  have 3: "fireNext t (sendClick now s) = sendClick now s"
    if "timers s = []" "t < lastTranscriptionUpdate s + 350"
    using that by (simp add: sendClick_deferred[OF assms] fireNext_def)
  have 4: "outbox (fireNext t (sendClick now s)) =
             outbox s @ (if isRecording s then [StopDictation] else [])
               @ [SendToModel (trim (transcription s))]
           \<and> timers (fireNext t (sendClick now s)) = []
           \<and> isSending (fireNext t (sendClick now s))"
    if "timers s = []" "lastTranscriptionUpdate s + 350 \<le> t"
  proof -
    let ?s1 = "s\<lparr>messageStatus := ''Finishing...'', timers := []\<rparr>"
    have f: "fireNext t (sendClick now s) = sendClick t ?s1"
      using that assms(1,2) by (simp add: sendClick_deferred[OF assms] fireNext_def runTimer_def)
    have q: "\<not> t - lastTranscriptionUpdate ?s1 < sendDebounceMs"
      using that by (simp add: sendDebounceMs_def)
    have a: "\<not> isSending ?s1" "trim (transcription ?s1) \<noteq> []" using assms by simp_all
    from sendClick_sent[OF a q] show ?thesis by (simp add: f)
  qed
  have arm: "armed s1" and same: "sends s1 = sends s"
    using assms by (simp_all add: s1_def sendClick_deferred[OF assms] armed_def sends_def)
  have 5: "armed (run es s1) \<or> sends s < sends (run es s1)"
    if "\<forall>x \<in> set es. \<forall>m. snd x = Message m \<longrightarrow> \<not> clearsTranscription m"
    using run_armed[OF arm that] by (simp add: same)
  have 6: "sends s < sends (drain n late (run es s1))"
    if h: "\<forall>x \<in> set es. \<forall>m. snd x = Message m \<longrightarrow> \<not> clearsTranscription m"
      and l: "0 \<le> late" and b: "2 * length (timers (run es s1)) \<le> n"
  proof -
    from 5[OF h] show ?thesis
    proof
      assume a: "armed (run es s1)"
      from backlog_bound[of late "run es s1"] b have "backlog late (run es s1) \<le> n" by simp
      from drain_armed[OF a l this] sends_run[of s1 es] show ?thesis by (simp add: same)
    next
      assume "sends s < sends (run es s1)"
      with sends_drain[of "run es s1" n late] show ?thesis by simp
    qed
  qed
  have 7: "sends (drain n late s1) = Suc (sends s)"
    if l: "0 \<le> late" and b: "2 * length (timers s1) \<le> n"
  proof -
    from backlog_bound[of late s1] b have "backlog late s1 \<le> n" by simp
    from drain_armed[OF arm l this] show ?thesis by (simp add: same)
  qed
  from 1 2 3 4 5 6 7 show ?thesis unfolding s1_def by blast
qed

text \<open>
  C2 at a concrete input: a click 100 ms after the transcription arrived sets one retry
  for time 350; nothing happens at 200; at 350 the transcription is sent. And when more
  of the transcription arrives at 200, the retry of 350 arms another for 550, and the
  transcription is sent when that one runs.
\<close>

theorem debounced_send_is_deferred_and_retried_witness:
  "\<not> isSending dictatingWebview \<and> trim (transcription dictatingWebview) \<noteq> []
   \<and> 100 - lastTranscriptionUpdate dictatingWebview < sendDebounceMs
   \<and> timers (sendClick 100 dictatingWebview) = [(350, RetrySend)]
   \<and> outbox (sendClick 100 dictatingWebview) = []
   \<and> fireNext 200 (sendClick 100 dictatingWebview) = sendClick 100 dictatingWebview
   \<and> outbox (fireNext 350 (sendClick 100 dictatingWebview)) =
       [StopDictation, SendToModel ''Explain recursion'']
   \<and> sends (drain 2 0 (sendClick 100 dictatingWebview)) = 1
   \<and> \<not> clearsTranscription (TranscriptionUpdate ''Explain it again'' False)
   \<and> timers (run [(200, Message (TranscriptionUpdate ''Explain it again'' False)),
                   (350, TimerRuns)] (sendClick 100 dictatingWebview)) = [(550, RetrySend)]
   \<and> sends (run [(200, Message (TranscriptionUpdate ''Explain it again'' False)),
                  (350, TimerRuns)] (sendClick 100 dictatingWebview)) = 0
   \<and> 0 < sends (drain 2 0
        (run [(200, Message (TranscriptionUpdate ''Explain it again'' False)),
              (350, TimerRuns)] (sendClick 100 dictatingWebview)))"
proof -
  have h: "\<not> isSending dictatingWebview" "trim (transcription dictatingWebview) \<noteq> []"
    "100 - lastTranscriptionUpdate dictatingWebview < sendDebounceMs"
    by (simp_all add: dictating_fields trim_dictated sendDebounceMs_def)
  note w = debounced_send_is_deferred_and_retried[OF h]
  have z: "sends dictatingWebview = 0" by (simp add: sends_def dictating_fields)
  have u: "trim ''Explain it again'' = ''Explain it again''"
    by (simp add: trim_def is_ws_def)
  have a: "timers (sendClick 100 dictatingWebview) = [(350, RetrySend)]"
    "outbox (sendClick 100 dictatingWebview) = []"
    by (simp_all add: w[THEN conjunct1] dictating_fields sendDebounceMs_def)
  have b: "fireNext 200 (sendClick 100 dictatingWebview) = sendClick 100 dictatingWebview"
    using w[where t = 200, THEN conjunct2, THEN conjunct2, THEN conjunct1]
    by (simp add: dictating_fields)
  have c: "outbox (fireNext 350 (sendClick 100 dictatingWebview)) =
       [StopDictation, SendToModel ''Explain recursion'']"
    using w[where t = 350, THEN conjunct2, THEN conjunct2, THEN conjunct2, THEN conjunct1]
    by (simp add: dictating_fields trim_dictated)
  have d: "sends (drain 2 0 (sendClick 100 dictatingWebview)) = 1"
    using w[where late = 0 and n = 2, THEN conjunct2, THEN conjunct2, THEN conjunct2,
        THEN conjunct2, THEN conjunct2, THEN conjunct2] a(1)
    by (simp add: z)
  have e: "\<not> clearsTranscription (TranscriptionUpdate ''Explain it again'' False)"
    by (simp add: u)
  have r: "run [(200, Message (TranscriptionUpdate ''Explain it again'' False)),
                (350, TimerRuns)] (sendClick 100 dictatingWebview)
      = dictatingWebview\<lparr>messageStatus := ''Finishing...'',
          timers := [(550, RetrySend)], transcription := ''Explain it again'',
          voiceText := ''Explain it again'', lastTranscriptionUpdate := 200\<rparr>"
    by (simp add: w[THEN conjunct1] run_def fireNext_def runTimer_def sendClick_def Let_def
        setTimeout_def dictating_fields u trim_dictated sendDebounceMs_def)
  have f: "timers (run [(200, Message (TranscriptionUpdate ''Explain it again'' False)),
                   (350, TimerRuns)] (sendClick 100 dictatingWebview)) = [(550, RetrySend)]"
    "sends (run [(200, Message (TranscriptionUpdate ''Explain it again'' False)),
                  (350, TimerRuns)] (sendClick 100 dictatingWebview)) = 0"
    by (simp_all only: r) (simp_all add: sends_def dictating_fields)
  have g: "0 < sends (drain 2 0
        (run [(200, Message (TranscriptionUpdate ''Explain it again'' False)),
              (350, TimerRuns)] (sendClick 100 dictatingWebview)))"
    using w[where es = "[(200, Message (TranscriptionUpdate ''Explain it again'' False)),
          (350, TimerRuns)]" and late = 0 and n = 2,
        THEN conjunct2, THEN conjunct2, THEN conjunct2, THEN conjunct2, THEN conjunct2,
        THEN conjunct1] e f(1)
    by (simp add: z)
  from h a b c d e f g show ?thesis by blast
qed

lemma trim_again: "trim ''again'' = ''again''"
  by (simp add: trim_def is_ws_def)

text \<open>
  C7, as the code has it. A click on send changes nothing when the page's send lock is
  set or the trimmed transcription is empty. A send sets the lock, and each of the
  four messages that end a turn for the page (\<open>audioComplete\<close>, \<open>error\<close>,
  \<open>interrupted\<close>, \<open>hardStopped\<close>) clears it. While the lock is set, whatever clicks, timers and other messages
  follow, it stays set and nothing more is sent. And two clicks in a row, at any two
  times in order (10 ms apart or not), on a page with something to send and no timer
  pending, send exactly one \<open>sendToModel\<close> once the timers they set have run, however
  late those run.
\<close>

theorem send_refused_when_empty_or_in_flight:
  "(isSending s \<or> trim (transcription s) = [] \<longrightarrow> sendClick now s = s)
   \<and> (isSending s \<and> (\<forall>x \<in> set es. \<forall>m. snd x = Message m \<longrightarrow> \<not> endsTurn m) \<longrightarrow>
        isSending (run es s) \<and> outbox (run es s) = outbox s)
   \<and> (\<not> isSending s \<and> trim (transcription s) \<noteq> [] \<and> timers s = [] \<and> t1 \<le> t2
        \<and> 0 \<le> late \<longrightarrow>
        sends (drain 2 late (sendClick t2 (sendClick t1 s))) = sends s + 1
      \<and> timers (drain 2 late (sendClick t2 (sendClick t1 s))) = [])
   \<and> (\<not> isSending s \<and> trim (transcription s) \<noteq> []
        \<and> \<not> now - lastTranscriptionUpdate s < sendDebounceMs \<longrightarrow>
        isSending (sendClick now s))
   \<and> (endsTurn m \<longrightarrow> \<not> isSending (onMessage now m s))"
proof -
  have "sendClick now s = s" if "isSending s \<or> trim (transcription s) = []"
    using that by (rule sendClick_refused)
  moreover have "isSending (run es s) \<and> outbox (run es s) = outbox s"
    if "isSending s" "\<forall>x \<in> set es. \<forall>m. snd x = Message m \<longrightarrow> \<not> endsTurn m"
    using that by (rule run_sending)
  moreover have "sends (drain 2 late (sendClick t2 (sendClick t1 s))) = sends s + 1
      \<and> timers (drain 2 late (sendClick t2 (sendClick t1 s))) = []"
    if "\<not> isSending s" "trim (transcription s) \<noteq> []" "timers s = []" "t1 \<le> t2" "0 \<le> late"
    using two_clicks[OF that] by (simp add: numeral_2_eq_2)
  moreover have "isSending (sendClick now s)"
    if "\<not> isSending s" "trim (transcription s) \<noteq> []"
      "\<not> now - lastTranscriptionUpdate s < sendDebounceMs"
    using that by (rule sendClick_sent(2))
  moreover have "\<not> isSending (onMessage now m s)" if "endsTurn m"
    using that by (cases m) (simp_all add: Let_def setTimeout_def)
  ultimately show ?thesis by blast
qed

text \<open>
  C7 at concrete inputs: a click on the page as loaded; clicks and a timer after a send;
  two clicks 10 ms apart inside the window, and two after it; the lock set by a send
  and cleared by \<open>interrupted\<close>.
\<close>

theorem send_refused_when_empty_or_in_flight_witness:
  "trim (transcription initialWebview) = []
   \<and> sendClick 5 initialWebview = initialWebview
   \<and> isSending (sendClick 400 dictatingWebview)
   \<and> outbox (run [(401, SendClick), (402, Message Thinking), (403, TimerRuns),
                   (404, SendClick)] (sendClick 400 dictatingWebview))
       = [StopDictation, SendToModel ''Explain recursion'']
   \<and> \<not> isSending dictatingWebview \<and> trim (transcription dictatingWebview) \<noteq> []
   \<and> timers dictatingWebview = []
   \<and> sends (drain 2 0 (sendClick 110 (sendClick 100 dictatingWebview))) = 1
   \<and> sends (drain 2 0 (sendClick 410 (sendClick 400 dictatingWebview))) = 1
   \<and> endsTurn Interrupted
   \<and> \<not> isSending (onMessage 600 Interrupted (sendClick 400 dictatingWebview))"
proof -
  have e: "trim (transcription initialWebview) = []"
    by (simp add: initialWebview_def trim_empty)
  have h: "\<not> isSending dictatingWebview" "trim (transcription dictatingWebview) \<noteq> []"
    "\<not> 400 - lastTranscriptionUpdate dictatingWebview < sendDebounceMs"
    by (simp_all add: dictating_fields trim_dictated sendDebounceMs_def)
  note c = sendClick_sent[OF h]
  have o: "outbox (sendClick 400 dictatingWebview)
      = [StopDictation, SendToModel ''Explain recursion'']"
    using c(1) by (simp add: dictating_fields trim_dictated)
  have z: "sends dictatingWebview = 0" by (simp add: sends_def dictating_fields)
  note w = send_refused_when_empty_or_in_flight
  have i: "isSending (sendClick 400 dictatingWebview)"
    using w[where s = dictatingWebview and now = 400,
        THEN conjunct2, THEN conjunct2, THEN conjunct2, THEN conjunct1] h by simp
  have k: "\<not> isSending (onMessage 600 Interrupted (sendClick 400 dictatingWebview))"
    using w[where m = Interrupted and now = 600 and s = "sendClick 400 dictatingWebview",
        THEN conjunct2, THEN conjunct2, THEN conjunct2, THEN conjunct2] by simp
  from w[where s = initialWebview and now = 5, THEN conjunct1]
    w[where s = "sendClick 400 dictatingWebview" and es = "[(401, SendClick),
        (402, Message Thinking), (403, TimerRuns), (404, SendClick)]",
      THEN conjunct2, THEN conjunct1]
    w[where s = dictatingWebview and ?t1.0 = 100 and ?t2.0 = 110 and late = 0,
      THEN conjunct2, THEN conjunct2, THEN conjunct1]
    w[where s = dictatingWebview and ?t1.0 = 400 and ?t2.0 = 410 and late = 0,
      THEN conjunct2, THEN conjunct2, THEN conjunct1]
  show ?thesis using e h i k o z by (simp add: dictating_fields)
qed

text \<open>
  C7 as claimed fails: the user sends \<open>Explain recursion\<close>, interrupts before any answer
  and dictates \<open>again\<close>. The messages the provider posts on the way are those the page
  receives, and the provider handles what the page posts. The request of the first turn
  is still pending, its promise neither resolved nor rejected, and the page's lock is
  clear; the click on send is not refused, and a second request goes out on the same
  socket while the first is pending.
\<close>

theorem second_send_with_first_pending_counterexample:
  "promise (heap interruptedTurn 0) 0 = None
   \<and> posted interruptedTurn =
       [RecordingStopped, Thinking, Interrupted, RecordingStarted,
        TranscriptionUpdate ''again'' False]
   \<and> outbox (run [(400, SendClick), (450, Message RecordingStopped),
                   (500, Message Thinking), (600, Message Interrupted),
                   (600, Message RecordingStarted),
                   (700, Message (TranscriptionUpdate ''again'' False)),
                   (1100, SendClick)] dictatingWebview)
       = [StopDictation, SendToModel ''Explain recursion'', StopDictation, SendToModel ''again'']
   \<and> (let p = sendRequest True True (fst (sendEnter (stopDictation interruptedTurn))) in
         promise (heap p 0) 0 = None \<and> promise (heap p 0) 1 = None
       \<and> socket (heap p 0) =
           [Send (RealtimeInput []), Send (ClientContent ''Explain recursion'' True),
            Send (RealtimeInput [replicate 480 0]),
            Send (RealtimeInput []), Send (ClientContent ''again'' True)])"
proof -
  have a: "promise (heap interruptedTurn 0) 0 = None
   \<and> posted interruptedTurn =
       [RecordingStopped, Thinking, Interrupted, RecordingStarted,
        TranscriptionUpdate ''again'' False]
   \<and> (let p = sendRequest True True (fst (sendEnter (stopDictation interruptedTurn))) in
         promise (heap p 0) 0 = None \<and> promise (heap p 0) 1 = None
       \<and> socket (heap p 0) =
           [Send (RealtimeInput []), Send (ClientContent ''Explain recursion'' True),
            Send (RealtimeInput [replicate 480 0]),
            Send (RealtimeInput []), Send (ClientContent ''again'' True)])"
    by (simp add: interruptedTurn_def deliver_def handleInterrupt_def sendRequest_def
        sendEnter_def connected_def isConnected_def concrete onClient_def post_def
        requestModelResponse_def handleResponse_def again_def emptyResponse_def
        transcriptionPresent_def transcriptionText_def truthy_def settle_def promise_def
        Let_def stop_def stopRecording_def startAudioCapture_def startRecording_def
        interrupt_def resetTranscription_def stopDictation_def)
  have b: "outbox (run [(400, SendClick), (450, Message RecordingStopped),
                   (500, Message Thinking), (600, Message Interrupted),
                   (600, Message RecordingStarted),
                   (700, Message (TranscriptionUpdate ''again'' False)),
                   (1100, SendClick)] dictatingWebview)
       = [StopDictation, SendToModel ''Explain recursion'', StopDictation, SendToModel ''again'']"
    by (simp add: dictating_fields trim_dictated trim_again trim_empty sendDebounceMs_def
        run_def sendClick_def Let_def setTimeout_def postMessage_def)
  from a b show ?thesis by simp
qed

end
